theory Spec2Isabelle
  imports Complex_Main
begin

section \<open>Ear trainer: audio sequencing and the round state machine\<close>

text \<open>
  The development embeds three source modules: \<^verbatim>\<open>utils/audio\<close> (tone synthesis, the
  list of active audio sources, the scale and triad players), the \<^verbatim>\<open>GameScreen\<close>
  component (the round state machine and the device input handler) and the
  \<^verbatim>\<open>Piano\<close> component (direct key presses), together with the two callbacks of
  \<^verbatim>\<open>App\<close> that end a game.

  Conventions of the embedding.
  \<^item> JavaScript numbers that carry audio quantities (frequencies, gains, seconds) are
    exact reals; \<^verbatim>\<open>setTimeout\<close> delays and the clock of the event loop are natural
    numbers of milliseconds.
  \<^item> The program runs on one event loop. A state holds the pending timers; an event is
    either a timer that fires or an input of the player or the device. Timers fire at
    their nominal due time.
  \<^item> Every handler reads the component state of the latest render: React re-renders
    between two events. What a timer callback captured when it was created (round,
    score, correctness) is stored in the callback, as the closure does.
  \<^item> Objects with identity (oscillators, timers, player closures) carry a number.
  \<^item> The field \<open>trace\<close> records what happened (notes triggered by a player, completion
    callbacks, guesses, calls of the two \<^verbatim>\<open>App\<close> callbacks). No function reads it.
\<close>

subsection \<open>Notes and tones (utils/audio)\<close>

datatype Note = C | D | E | F | G | A | B

definition noteFrequencies :: "Note \<Rightarrow> real" where
  "noteFrequencies n =
     (case n of C \<Rightarrow> 261.63 | D \<Rightarrow> 293.66 | E \<Rightarrow> 329.63 | F \<Rightarrow> 349.23
              | G \<Rightarrow> 392.00 | A \<Rightarrow> 440.00 | B \<Rightarrow> 493.88)"

datatype OscillatorType = Sine | Square | Sawtooth | Triangle

text \<open>One call on an \<^verbatim>\<open>AudioParam\<close>: the target value and the time.\<close>

datatype automation =
    SetValueAtTime real real
  | LinearRampToValueAtTime real real
  | ExponentialRampToValueAtTime real real

fun automation_time :: "automation \<Rightarrow> real" where
  "automation_time (SetValueAtTime v t) = t"
| "automation_time (LinearRampToValueAtTime v t) = t"
| "automation_time (ExponentialRampToValueAtTime v t) = t"

text \<open>
  An oscillator with its own gain node (\<^verbatim>\<open>oscGain\<close>); \<open>osc_start\<close> and \<open>osc_stop\<close> are
  the times given to \<^verbatim>\<open>start\<close> and \<^verbatim>\<open>stop\<close>.
\<close>

record oscillator =
  osc_id :: nat
  osc_type :: OscillatorType
  osc_frequency :: real
  osc_gain :: real
  osc_start :: "real option"
  osc_stop :: "real option"

text \<open>
  What one \<^verbatim>\<open>createPianoTone\<close> call connects to the destination: the oscillators and
  the schedule of the master gain node.
\<close>

record tone =
  tone_oscillators :: "oscillator list"
  tone_envelope :: "automation list"

definition harmonics :: "real \<Rightarrow> (real \<times> real) list" where
  "harmonics frequency =
     [(frequency, 0.8), (frequency * 2, 0.3), (frequency * 3, 0.15),
      (frequency * 4, 0.08), (frequency * 5, 0.04)]"

text \<open>
  \<open>createPianoTone fresh now frequency duration\<close>: \<open>now\<close> is
  \<^verbatim>\<open>audioContext.currentTime\<close>, \<open>fresh\<close> numbers the new oscillators.
\<close>

definition createPianoTone :: "nat \<Rightarrow> real \<Rightarrow> real \<Rightarrow> real \<Rightarrow> tone" where
  "createPianoTone fresh now frequency duration =
     \<lparr>tone_oscillators =
        map (\<lambda>(k, (freq, gain)).
               \<lparr>osc_id = fresh + k, osc_type = Triangle, osc_frequency = freq,
                osc_gain = gain, osc_start = None, osc_stop = None\<rparr>)
            (enumerate 0 (harmonics frequency)),
      tone_envelope =
        [SetValueAtTime 0 now,
         LinearRampToValueAtTime 0.4 (now + 0.01),
         ExponentialRampToValueAtTime 0.2 (now + 0.1),
         ExponentialRampToValueAtTime 0.05 (now + duration * 0.7),
         LinearRampToValueAtTime 0 (now + duration)]\<rparr>"

subsection \<open>The event loop, the components and their state\<close>

datatype status = Initial | Playing | Guessing | Feedback

datatype feedback = Correct | Incorrect

datatype GameState = GS_welcome | GS_playing | GS_scores | GS_highScores

datatype message =
    Msg_empty
  | Msg_listening_triad
  | Msg_listening_scale
  | Msg_which_note
  | Msg_correct "Note option"
  | Msg_incorrect "Note option" Note
  | Msg_get_ready
  | Msg_replaying

text \<open>The two completion callbacks the game screen hands to a player.\<close>

datatype completion =
    SelectRandomNote "Note list"
  | AskWhichNote

text \<open>
  The functions given to \<^verbatim>\<open>setTimeout\<close>: \<open>PlayNextNote h\<close> and \<open>OnComplete h\<close> belong
  to the player closure number \<open>h\<close>; \<open>AfterFeedback round isCorrect score\<close> is the
  arrow function of \<^verbatim>\<open>handleNoteGuess\<close> with the three values it captured.
\<close>

datatype callback =
    PlayNextNote nat
  | OnComplete nat
  | AfterFeedback nat bool nat
  | InitializeGame
  | ReleaseKey Note

datatype timer = Timer (tid: nat) (due: nat) (cb: callback)

text \<open>The variables one \<^verbatim>\<open>playScale\<close> or \<^verbatim>\<open>playTriad\<close> call closes over.\<close>

record sequence =
  seq_notes :: "Note list"
  seq_index :: nat
  timeoutId :: "nat option"
  onComplete :: completion
  seq_started :: nat

datatype obs =
    NoteTriggered nat nat Note real nat
  | Completed nat nat
  | GuessHandled nat Note bool
  | EndGameCalled nat nat nat
  | ExitGameCalled nat

record state =
  \<comment> \<open>the event loop\<close>
  now :: nat
  timers :: "timer list"
  next_timer :: nat
  \<comment> \<open>utils/audio\<close>
  activeAudioSources :: "oscillator list"
  stopped :: "nat list"
  destination :: "tone list"
  next_osc :: nat
  seqs :: "sequence list"
  \<comment> \<open>App\<close>
  gameState :: GameState
  app_score :: nat
  totalQuestions :: nat
  \<comment> \<open>GameScreen: props, state and refs\<close>
  difficulty :: string
  arduinoPort :: bool
  score :: nat
  currentNote :: "Note option"
  status :: status
  feedback :: "feedback option"
  round :: nat
  message :: message
  availableNotes :: "Note list"
  showExitConfirm :: bool
  audioContext :: "nat option"
  gainNode :: "real option"
  audioCleanupRef :: "nat option"
  mountTimer :: nat
  \<comment> \<open>Piano\<close>
  pressedKeys :: "Note set"
  pressTimeoutRef :: "Note \<Rightarrow> nat option"
  \<comment> \<open>observation\<close>
  trace :: "obs list"

definition mounted :: "state \<Rightarrow> bool" where
  "mounted s = (gameState s = GS_playing)"

definition setTimeout :: "callback \<Rightarrow> nat \<Rightarrow> state \<Rightarrow> nat \<times> state" where
  "setTimeout f delay s =
     (next_timer s,
      s\<lparr>timers := timers s @ [Timer (next_timer s) (now s + delay) f],
        next_timer := Suc (next_timer s)\<rparr>)"

definition clearTimeout :: "nat \<Rightarrow> state \<Rightarrow> state" where
  "clearTimeout i s = s\<lparr>timers := filter (\<lambda>t. tid t \<noteq> i) (timers s)\<rparr>"

definition record_obs :: "obs \<Rightarrow> state \<Rightarrow> state" where
  "record_obs e s = s\<lparr>trace := trace s @ [e]\<rparr>"

text \<open>\<^verbatim>\<open>audioContext.currentTime\<close>, in seconds since the context was created.\<close>

definition currentTime :: "state \<Rightarrow> real" where
  "currentTime s =
     (case audioContext s of None \<Rightarrow> 0 | Some t0 \<Rightarrow> real (now s - t0) / 1000)"

subsection \<open>utils/audio: the active sources, single notes, the two players\<close>

definition stopAllAudio :: "state \<Rightarrow> state" where
  "stopAllAudio s =
     s\<lparr>stopped := stopped s @ map osc_id (activeAudioSources s),
       activeAudioSources := []\<rparr>"

definition playNote :: "Note \<Rightarrow> real \<Rightarrow> state \<Rightarrow> state" where
  "playNote note duration s =
     (case audioContext s of
        None \<Rightarrow> s
      | Some ctx \<Rightarrow>
          (let frequency = noteFrequencies note;
               tn = createPianoTone (next_osc s) (currentTime s) frequency duration;
               oscillators =
                 map (\<lambda>osc. osc\<lparr>osc_start := Some (currentTime s),
                                 osc_stop := Some (currentTime s + duration)\<rparr>)
                     (tone_oscillators tn)
           in s\<lparr>activeAudioSources := activeAudioSources s @ oscillators,
                destination := destination s @ [tn\<lparr>tone_oscillators := oscillators\<rparr>],
                next_osc := next_osc s + length oscillators\<rparr>))"

text \<open>
  The \<^verbatim>\<open>onended\<close> handler of the oscillator number \<open>i\<close>: \<^verbatim>\<open>indexOf\<close> and
  \<^verbatim>\<open>splice\<close> remove its first occurrence, if there is one.
\<close>

fun remove_source :: "nat \<Rightarrow> oscillator list \<Rightarrow> oscillator list" where
  "remove_source i [] = []"
| "remove_source i (x # xs) = (if osc_id x = i then xs else x # remove_source i xs)"

definition onended :: "nat \<Rightarrow> state \<Rightarrow> state" where
  "onended i s = s\<lparr>activeAudioSources := remove_source i (activeAudioSources s)\<rparr>"

text \<open>\<^verbatim>\<open>playNextNote\<close> of the player closure \<open>h\<close>.\<close>

definition playNextNote :: "nat \<Rightarrow> state \<Rightarrow> state" where
  "playNextNote h s =
     (if h < length (seqs s) then
        (let q = seqs s ! h in
         if seq_index q < length (seq_notes q) then
           (let note = seq_notes q ! seq_index q;
                s1 = record_obs (NoteTriggered h (seq_index q) note 0.6 (now s))
                       (playNote note 0.6 s);
                (i, s2) = setTimeout (PlayNextNote h) 700 s1
            in s2\<lparr>seqs := (seqs s2)
                   [h := q\<lparr>seq_index := seq_index q + 1, timeoutId := Some i\<rparr>]\<rparr>)
         else
           (let (i, s1) = setTimeout (OnComplete h) 600 s
            in s1\<lparr>seqs := (seqs s1)[h := q\<lparr>timeoutId := Some i\<rparr>]\<rparr>))
      else s)"

text \<open>
  \<^verbatim>\<open>playScale\<close> and \<^verbatim>\<open>playTriad\<close> have the same body and differ in the note list:
  \<open>playSequence\<close> is that body. The result is the number of the new closure, which
  stands for the \<^verbatim>\<open>cleanup\<close> function returned.
\<close>

definition playSequence :: "Note list \<Rightarrow> completion \<Rightarrow> state \<Rightarrow> nat \<times> state" where
  "playSequence notes f s =
     (let h = length (seqs s);
          s1 = s\<lparr>seqs := seqs s @
                 [\<lparr>seq_notes = notes, seq_index = 0, timeoutId = None,
                   onComplete = f, seq_started = now s\<rparr>]\<rparr>
      in (h, playNextNote h s1))"

definition playScale :: "completion \<Rightarrow> state \<Rightarrow> nat \<times> state" where
  "playScale f s = playSequence [C, D, E, F, G, A, B] f s"

definition playTriad :: "completion \<Rightarrow> state \<Rightarrow> nat \<times> state" where
  "playTriad f s = playSequence [C, E, G, E, C] f s"

text \<open>
  \<^verbatim>\<open>cleanup\<close> of the closure \<open>h\<close>. \<^verbatim>\<open>if (timeoutId)\<close> is false for
  \<^verbatim>\<open>undefined\<close> and for 0.
\<close>

definition cleanup :: "nat \<Rightarrow> state \<Rightarrow> state" where
  "cleanup h s =
     (if h < length (seqs s) then
        (case timeoutId (seqs s ! h) of
           None \<Rightarrow> s
         | Some i \<Rightarrow> if i \<noteq> 0 then clearTimeout i s else s)
      else s)"

subsection \<open>Piano: direct key presses\<close>

definition allNotes :: "Note list" where
  "allNotes = [C, D, E, F, G, A, B]"

text \<open>The cleanup of Piano's effect clears the timeout stored for every key.\<close>

definition pianoCleanup :: "state \<Rightarrow> state" where
  "pianoCleanup s =
     s\<lparr>timers :=
         filter (\<lambda>t. \<not> (\<exists>n \<in> set allNotes. pressTimeoutRef s n = Some (tid t) \<and> tid t \<noteq> 0))
                (timers s)\<rparr>"

text \<open>
  The visual feedback both Piano handlers give: the key is added to the pressed
  keys, the timeout stored for the key is cleared, and a new one releases the key
  after 200 ms.
\<close>

definition pressKey :: "Note \<Rightarrow> state \<Rightarrow> state" where
  "pressKey note s =
     (let s1 = s\<lparr>pressedKeys := insert note (pressedKeys s)\<rparr>;
          s2 = (case pressTimeoutRef s1 note of
                  None \<Rightarrow> s1
                | Some i \<Rightarrow> if i \<noteq> 0 then clearTimeout i s1 else s1);
          (i, s3) = setTimeout (ReleaseKey note) 200 s2
      in s3\<lparr>pressTimeoutRef := (pressTimeoutRef s3)(note \<mapsto> i)\<rparr>)"

definition releaseKey :: "Note \<Rightarrow> state \<Rightarrow> state" where
  "releaseKey note s = s\<lparr>pressedKeys := pressedKeys s - {note}\<rparr>"

subsection \<open>App: the two callbacks handed to the game screen\<close>

text \<open>
  When \<open>gameState\<close> leaves \<open>GS_playing\<close> the game screen and its piano unmount, and
  the cleanups of their effects run: the piano clears its key timeouts; the game
  screen clears the timer of its mount effect, stops all audio and calls the stored
  cleanup function.
\<close>

text \<open>
  \<^verbatim>\<open>if (audioCleanupRef.current) { audioCleanupRef.current(); }\<close>, which the game
  screen runs when a game ends, on exit and when it unmounts.
\<close>

definition callAudioCleanup :: "state \<Rightarrow> state" where
  "callAudioCleanup s = (case audioCleanupRef s of None \<Rightarrow> s | Some h \<Rightarrow> cleanup h s)"

definition unmount :: "state \<Rightarrow> state" where
  "unmount s =
     (let s1 = pianoCleanup s;
          s2 = clearTimeout (mountTimer s1) s1;
          s3 = stopAllAudio s2
      in callAudioCleanup s3)"

definition App_endGame :: "nat \<Rightarrow> nat \<Rightarrow> state \<Rightarrow> state" where
  "App_endGame finalScore finalTotalQuestions s =
     (let s1 = record_obs (EndGameCalled finalScore finalTotalQuestions (now s)) s;
          s2 = s1\<lparr>app_score := finalScore, totalQuestions := finalTotalQuestions,
                 gameState := GS_scores\<rparr>
      in if mounted s then unmount s2 else s2)"

definition App_exitGame :: "state \<Rightarrow> state" where
  "App_exitGame s =
     (let s1 = record_obs (ExitGameCalled (now s)) s;
          s2 = s1\<lparr>gameState := GS_welcome\<rparr>
      in if mounted s then unmount s2 else s2)"

subsection \<open>GameScreen: the round state machine\<close>

definition totalRounds :: "state \<Rightarrow> nat" where
  "totalRounds s = (if difficulty s = ''easy'' then 5 else 10)"

definition pinToNote :: "int \<Rightarrow> Note option" where
  "pinToNote pin =
     (if pin = 2 then Some C else if pin = 3 then Some D else if pin = 4 then Some E
      else if pin = 5 then Some F else if pin = 6 then Some G else if pin = 7 then Some A
      else if pin = 8 then Some B else None)"

definition getAvailableNotes :: "string \<Rightarrow> Note list" where
  "getAvailableNotes d =
     (if d = ''easy'' then [C, E, G]
      else if d = ''medium'' then [C, E, F, G]
      else if d = ''hard'' then [C, D, E, F, G, A, B]
      else [C, E, G])"

definition initializeAudioContext :: "state \<Rightarrow> state" where
  "initializeAudioContext s =
     (if audioContext s = None
      then s\<lparr>audioContext := Some (now s), gainNode := Some 0.5\<rparr>
      else s)"

definition initializeGame :: "state \<Rightarrow> state" where
  "initializeGame s =
     (let s1 = initializeAudioContext s;
          notes = getAvailableNotes (difficulty s1);
          s2 = s1\<lparr>availableNotes := notes, status := Playing\<rparr>
      in if difficulty s2 = ''easy'' then
           (let (h, s3) = playTriad (SelectRandomNote notes)
                            (s2\<lparr>message := Msg_listening_triad\<rparr>)
            in s3\<lparr>audioCleanupRef := Some h\<rparr>)
         else
           (let (h, s3) = playScale (SelectRandomNote notes)
                            (s2\<lparr>message := Msg_listening_scale\<rparr>)
            in s3\<lparr>audioCleanupRef := Some h\<rparr>))"

text \<open>
  \<open>selectRandomNote notes r\<close>, where \<open>r\<close> is the value of \<^verbatim>\<open>Math.random()\<close>. An
  index outside the list reads \<^verbatim>\<open>undefined\<close>; \<^verbatim>\<open>Math.random\<close> returns \<open>0 \<le> r < 1\<close>,
  which keeps the index inside a list that is not empty.
\<close>

definition selectRandomNote :: "Note list \<Rightarrow> real \<Rightarrow> state \<Rightarrow> state" where
  "selectRandomNote notes r s =
     (let randomIndex = \<lfloor>r * real (length notes)\<rfloor>;
          note = (if 0 \<le> randomIndex \<and> randomIndex < int (length notes)
                  then Some (notes ! nat randomIndex) else None);
          s1 = s\<lparr>currentNote := note, status := Guessing, message := Msg_which_note\<rparr>
      in case note of None \<Rightarrow> s1 | Some n \<Rightarrow> playNote n 1 s1)"

definition endGame :: "nat option \<Rightarrow> state \<Rightarrow> state" where
  "endGame finalScore s =
     (let s1 = stopAllAudio s;
          s2 = callAudioCleanup s1
      in App_endGame (case finalScore of Some f \<Rightarrow> f | None \<Rightarrow> score s2)
           (totalRounds s2) s2)"

definition handleNoteGuess :: "Note \<Rightarrow> state \<Rightarrow> state" where
  "handleNoteGuess guessedNote s =
     (if status s \<noteq> Guessing then s
      else
        (let isCorrect = (Some guessedNote = currentNote s);
             s1 = s\<lparr>feedback := Some (if isCorrect then Correct else Incorrect),
                    message := (if isCorrect then Msg_correct (currentNote s)
                                else Msg_incorrect (currentNote s) guessedNote),
                    status := Feedback\<rparr>;
             s2 = (if isCorrect then s1\<lparr>score := score s1 + 1\<rparr> else s1);
             s3 = record_obs (GuessHandled (round s) guessedNote isCorrect) s2
         in snd (setTimeout (AfterFeedback (round s) isCorrect (score s)) 2500 s3)))"

text \<open>The function \<^verbatim>\<open>handleNoteGuess\<close> schedules, with the values it captured.\<close>

definition afterFeedback :: "nat \<Rightarrow> bool \<Rightarrow> nat \<Rightarrow> state \<Rightarrow> state" where
  "afterFeedback round0 isCorrect score0 s =
     (if round0 \<ge> totalRounds s then
        endGame (Some (if isCorrect then score0 + 1 else score0)) s
      else
        snd (setTimeout InitializeGame 1500
               (s\<lparr>round := round0 + 1, feedback := None, status := Initial,
                  message := Msg_get_ready\<rparr>)))"

definition replayCurrentNote :: "state \<Rightarrow> state" where
  "replayCurrentNote s =
     (case currentNote s of
        None \<Rightarrow> s
      | Some n \<Rightarrow> if status s = Guessing then playNote n 1 s else s)"

definition replayScale :: "state \<Rightarrow> state" where
  "replayScale s =
     (if status s = Guessing then
        (let s1 = s\<lparr>message := Msg_replaying\<rparr> in
         if difficulty s1 = ''easy'' then
           (let (h, s2) = playTriad AskWhichNote s1 in s2\<lparr>audioCleanupRef := Some h\<rparr>)
         else
           (let (h, s2) = playScale AskWhichNote s1 in s2\<lparr>audioCleanupRef := Some h\<rparr>))
      else s)"

definition handleExitClick :: "state \<Rightarrow> state" where
  "handleExitClick s = s\<lparr>showExitConfirm := True\<rparr>"

definition confirmExit :: "state \<Rightarrow> state" where
  "confirmExit s =
     (let s1 = stopAllAudio s;
          s2 = callAudioCleanup s1
      in App_exitGame s2)"

definition cancelExit :: "state \<Rightarrow> state" where
  "cancelExit s = s\<lparr>showExitConfirm := False\<rparr>"

definition handleArduinoData :: "int \<Rightarrow> state \<Rightarrow> state" where
  "handleArduinoData pin s =
     (case pinToNote pin of
        None \<Rightarrow> s
      | Some note \<Rightarrow>
          (let s1 = playNote note 0.3 s in
           if status s1 = Guessing \<and> note \<in> set (availableNotes s1)
           then handleNoteGuess note s1 else s1))"

text \<open>Piano: \<^verbatim>\<open>disabled\<close> is the prop \<^verbatim>\<open>status !== 'guessing'\<close>.\<close>

definition disabled :: "state \<Rightarrow> bool" where
  "disabled s = (status s \<noteq> Guessing)"

definition handleKeyPress :: "Note \<Rightarrow> state \<Rightarrow> state" where
  "handleKeyPress note s =
     (if disabled s \<or> note \<notin> set (availableNotes s) then s
      else handleNoteGuess note (playNote note 0.3 (pressKey note s)))"

definition Piano_handleArduinoData :: "int \<Rightarrow> state \<Rightarrow> state" where
  "Piano_handleArduinoData pin s =
     (case pinToNote pin of
        None \<Rightarrow> s
      | Some note \<Rightarrow> if note \<in> set (availableNotes s) then pressKey note s else s)"

subsection \<open>Events and runs\<close>

text \<open>
  \<open>Elapse d\<close> lets time pass, up to the next timer that is due. \<open>Fire r\<close> runs the
  pending timer that is due first (the older one of two that are due together);
  \<open>r\<close> is what \<^verbatim>\<open>Math.random()\<close> returns if the callback asks. \<open>Ended i\<close> is the
  \<^verbatim>\<open>ended\<close> event of the oscillator \<open>i\<close>. The other events are inputs: a click on a
  piano key, a line of the serial device, and the buttons of the game screen, which
  exist while the screen is mounted (the replay buttons while the status is
  \<open>Guessing\<close>, the two buttons of the exit dialog while it is shown).
\<close>

datatype event =
    Elapse nat
  | Fire real
  | Ended nat
  | KeyPress Note
  | ArduinoData int
  | ReplayCurrentNote
  | ReplayScale
  | ExitClick
  | ConfirmExit
  | CancelExit

fun earliest :: "timer list \<Rightarrow> timer option" where
  "earliest [] = None"
| "earliest (t # ts) =
     (case earliest ts of
        None \<Rightarrow> Some t
      | Some u \<Rightarrow> if due t \<le> due u then Some t else Some u)"

definition run_callback :: "callback \<Rightarrow> real \<Rightarrow> state \<Rightarrow> state" where
  "run_callback f r s =
     (case f of
        PlayNextNote h \<Rightarrow> playNextNote h s
      | OnComplete h \<Rightarrow>
          (if h < length (seqs s) then
             (let s1 = record_obs (Completed h (now s)) s in
              case onComplete (seqs s ! h) of
                SelectRandomNote notes \<Rightarrow> selectRandomNote notes r s1
              | AskWhichNote \<Rightarrow> s1\<lparr>message := Msg_which_note\<rparr>)
           else s)
      | AfterFeedback round0 isCorrect score0 \<Rightarrow> afterFeedback round0 isCorrect score0 s
      | InitializeGame \<Rightarrow> pianoCleanup (initializeGame s)
      | ReleaseKey note \<Rightarrow> releaseKey note s)"

definition step :: "event \<Rightarrow> state \<Rightarrow> state" where
  "step e s =
     (case e of
        Elapse d \<Rightarrow>
          (case earliest (timers s) of
             None \<Rightarrow> s\<lparr>now := now s + d\<rparr>
           | Some t \<Rightarrow> s\<lparr>now := max (now s) (min (now s + d) (due t))\<rparr>)
      | Fire r \<Rightarrow>
          (case earliest (timers s) of
             None \<Rightarrow> s
           | Some t \<Rightarrow>
               run_callback (cb t) r
                 (s\<lparr>now := max (now s) (due t), timers := remove1 t (timers s)\<rparr>))
      | Ended i \<Rightarrow> onended i s
      | KeyPress note \<Rightarrow> if mounted s then handleKeyPress note s else s
      | ArduinoData pin \<Rightarrow>
          if mounted s then
            (let s1 = Piano_handleArduinoData pin s
             in if arduinoPort s1 then handleArduinoData pin s1 else s1)
          else s
      | ReplayCurrentNote \<Rightarrow>
          if mounted s \<and> status s = Guessing then replayCurrentNote s else s
      | ReplayScale \<Rightarrow>
          if mounted s \<and> status s = Guessing then replayScale s else s
      | ExitClick \<Rightarrow> if mounted s then handleExitClick s else s
      | ConfirmExit \<Rightarrow> if mounted s \<and> showExitConfirm s then confirmExit s else s
      | CancelExit \<Rightarrow> if mounted s \<and> showExitConfirm s then cancelExit s else s)"

fun run :: "event list \<Rightarrow> state \<Rightarrow> state" where
  "run [] s = s"
| "run (e # es) s = run es (step e s)"

text \<open>
  The state in which the game screen has just been mounted on a fresh page: the
  mount effect has set the timer that starts the first round after 2000 ms.
\<close>

definition init :: "string \<Rightarrow> bool \<Rightarrow> state" where
  "init d port =
     \<lparr>now = 0, timers = [Timer 1 2000 InitializeGame], next_timer = 2,
      activeAudioSources = [], stopped = [], destination = [], next_osc = 0, seqs = [],
      gameState = GS_playing, app_score = 0, totalQuestions = 0,
      difficulty = d, arduinoPort = port, score = 0, currentNote = None,
      status = Initial, feedback = None, round = 1, message = Msg_empty,
      availableNotes = [], showExitConfirm = False, audioContext = None,
      gainNode = None, audioCleanupRef = None, mountTimer = 1,
      pressedKeys = {}, pressTimeoutRef = (\<lambda>n. None), trace = []\<rparr>"

definition reachable :: "state \<Rightarrow> bool" where
  "reachable s = (\<exists>d port es. s = run es (init d port))"

subsection \<open>Notions used to state the properties\<close>

text \<open>
  The reference passage of a round: the note list of the player that
  \<^verbatim>\<open>initializeGame\<close> starts and stores in \<^verbatim>\<open>audioCleanupRef\<close>.
\<close>

definition referencePassage :: "state \<Rightarrow> Note list" where
  "referencePassage s =
     (case audioCleanupRef (initializeGame s) of
        None \<Rightarrow> []
      | Some h \<Rightarrow> seq_notes (seqs (initializeGame s) ! h))"

text \<open>The player closure a callback belongs to.\<close>

fun owner :: "callback \<Rightarrow> nat option" where
  "owner (PlayNextNote h) = Some h"
| "owner (OnComplete h) = Some h"
| "owner (AfterFeedback round0 isCorrect score0) = None"
| "owner InitializeGame = None"
| "owner (ReleaseKey note) = None"

text \<open>The pending timers of the player closure \<open>h\<close>: its scheduled continuations.\<close>

definition pending :: "nat \<Rightarrow> state \<Rightarrow> timer list" where
  "pending h s = filter (\<lambda>t. owner (cb t) = Some h) (timers s)"

text \<open>The observations about the player closure \<open>h\<close>.\<close>

fun about :: "nat \<Rightarrow> obs \<Rightarrow> bool" where
  "about h (NoteTriggered h' i note d t) = (h' = h)"
| "about h (Completed h' t) = (h' = h)"
| "about h (GuessHandled r note c) = False"
| "about h (EndGameCalled f q t) = False"
| "about h (ExitGameCalled t) = False"

fun is_guess :: "obs \<Rightarrow> bool" where
  "is_guess (GuessHandled r note c) = True"
| "is_guess (NoteTriggered h i note d t) = False"
| "is_guess (Completed h t) = False"
| "is_guess (EndGameCalled f q t) = False"
| "is_guess (ExitGameCalled t) = False"

fun is_correct_guess :: "obs \<Rightarrow> bool" where
  "is_correct_guess (GuessHandled r note c) = c"
| "is_correct_guess (NoteTriggered h i note d t) = False"
| "is_correct_guess (Completed h t) = False"
| "is_correct_guess (EndGameCalled f q t) = False"
| "is_correct_guess (ExitGameCalled t) = False"

fun is_endGame :: "obs \<Rightarrow> bool" where
  "is_endGame (EndGameCalled f q t) = True"
| "is_endGame (NoteTriggered h i note d t) = False"
| "is_endGame (Completed h t) = False"
| "is_endGame (GuessHandled r note c) = False"
| "is_endGame (ExitGameCalled t) = False"

text \<open>The number of guesses handled so far, and of correct ones.\<close>

definition guesses :: "state \<Rightarrow> nat" where
  "guesses s = length (filter is_guess (trace s))"

definition correct_guesses :: "state \<Rightarrow> nat" where
  "correct_guesses s = length (filter is_correct_guess (trace s))"

text \<open>
  Timer numbers are positive, fresh and distinct, no pending timer is overdue, and a
  pending timer of a player closure is the one the closure stored in \<open>timeoutId\<close>.
\<close>

definition timers_ok :: "state \<Rightarrow> bool" where
  "timers_ok s =
     (0 < next_timer s \<and> distinct (map tid (timers s)) \<and>
      (\<forall>t \<in> set (timers s).
          0 < tid t \<and> tid t < next_timer s \<and> now s \<le> due t \<and>
          (\<forall>h. owner (cb t) = Some h \<longrightarrow>
               h < length (seqs s) \<and> timeoutId (seqs s ! h) = Some (tid t))))"

text \<open>
  The schedule of a player closure, counted from the time it was created: what its
  pending timer is due for, and what the trace holds about it.
\<close>

definition note_time :: "sequence \<Rightarrow> nat \<Rightarrow> nat" where
  "note_time q i = seq_started q + 700 * i"

definition complete_time :: "sequence \<Rightarrow> nat" where
  "complete_time q = seq_started q + 700 * length (seq_notes q) + 600"

fun timer_on_schedule :: "sequence list \<Rightarrow> timer \<Rightarrow> bool" where
  "timer_on_schedule qs (Timer i d (PlayNextNote h)) = (d = note_time (qs ! h) (seq_index (qs ! h)))"
| "timer_on_schedule qs (Timer i d (OnComplete h)) =
     (seq_index (qs ! h) = length (seq_notes (qs ! h)) \<and> d = complete_time (qs ! h))"
| "timer_on_schedule qs (Timer i d (AfterFeedback round0 isCorrect score0)) = True"
| "timer_on_schedule qs (Timer i d InitializeGame) = True"
| "timer_on_schedule qs (Timer i d (ReleaseKey note)) = True"

fun obs_on_schedule :: "sequence list \<Rightarrow> obs \<Rightarrow> bool" where
  "obs_on_schedule qs (NoteTriggered h i note d t) =
     (h < length qs \<and> i < seq_index (qs ! h) \<and> note = seq_notes (qs ! h) ! i \<and> d = 0.6 \<and>
      t = note_time (qs ! h) i)"
| "obs_on_schedule qs (Completed h t) =
     (h < length qs \<and> seq_index (qs ! h) = length (seq_notes (qs ! h)) \<and>
      t = complete_time (qs ! h))"
| "obs_on_schedule qs (GuessHandled r note c) = True"
| "obs_on_schedule qs (EndGameCalled f q t) = True"
| "obs_on_schedule qs (ExitGameCalled t) = True"

definition player_ok :: "state \<Rightarrow> bool" where
  "player_ok s =
     ((\<forall>t \<in> set (timers s). timer_on_schedule (seqs s) t) \<and>
      (\<forall>e \<in> set (trace s). obs_on_schedule (seqs s) e) \<and>
      (\<forall>h < length (seqs s).
          seq_index (seqs s ! h) \<le> length (seq_notes (seqs s ! h)) \<and>
          (\<forall>i < seq_index (seqs s ! h).
              NoteTriggered h i (seq_notes (seqs s ! h) ! i) 0.6 (note_time (seqs s ! h) i)
                \<in> set (trace s))))"

text \<open>
  The pending callbacks that drive the round state machine: the start of a round,
  the player of a reference passage (its completion selects the target note) and
  the end of the feedback delay. A replayed passage and a key release are not
  among them.
\<close>

definition selects :: "sequence list \<Rightarrow> nat \<Rightarrow> bool" where
  "selects qs h =
     (h < length qs \<and>
      (case onComplete (qs ! h) of SelectRandomNote notes \<Rightarrow> True | AskWhichNote \<Rightarrow> False))"

fun control :: "sequence list \<Rightarrow> callback \<Rightarrow> bool" where
  "control qs (PlayNextNote h) = selects qs h"
| "control qs (OnComplete h) = selects qs h"
| "control qs (AfterFeedback round0 isCorrect score0) = True"
| "control qs InitializeGame = True"
| "control qs (ReleaseKey note) = False"

definition control_timers :: "state \<Rightarrow> timer list" where
  "control_timers s = filter (\<lambda>t. control (seqs s) (cb t)) (timers s)"

text \<open>What a pending control callback tells about the state of the game screen.\<close>

fun expected :: "state \<Rightarrow> callback \<Rightarrow> bool" where
  "expected s (PlayNextNote h) = (status s = Playing)"
| "expected s (OnComplete h) = (status s = Playing)"
| "expected s (AfterFeedback round0 isCorrect score0) =
     (status s = Feedback \<and> round0 = round s \<and>
      score s = (if isCorrect then score0 + 1 else score0))"
| "expected s InitializeGame = (status s = Initial)"
| "expected s (ReleaseKey note) = True"

text \<open>What a recorded call of \<^verbatim>\<open>onEndGame\<close> tells about the state.\<close>

fun endGame_ok :: "state \<Rightarrow> obs \<Rightarrow> bool" where
  "endGame_ok s (EndGameCalled f q t) =
     (f = score s \<and> q = totalRounds s \<and> round s = totalRounds s \<and> status s = Feedback \<and>
      gameState s = GS_scores \<and> control_timers s = [])"
| "endGame_ok s (NoteTriggered h i note d t) = True"
| "endGame_ok s (Completed h t) = True"
| "endGame_ok s (GuessHandled r note c) = True"
| "endGame_ok s (ExitGameCalled t) = True"

definition game_ok :: "state \<Rightarrow> bool" where
  "game_ok s =
     (1 \<le> round s \<and> round s \<le> totalRounds s \<and>
      length (control_timers s) \<le> 1 \<and>
      (\<forall>t \<in> set (control_timers s). expected s (cb t)) \<and>
      correct_guesses s = score s \<and>
      guesses s = (if status s = Feedback then round s else round s - 1) \<and>
      (\<forall>e \<in> set (trace s). endGame_ok s e))"

text \<open>
  \<open>leaves_alone h s s'\<close>: from \<open>s\<close> to \<open>s'\<close> no timer of the player closure \<open>h\<close> has
  been set, nothing about \<open>h\<close> has been recorded, and no closure has disappeared.
\<close>

definition leaves_alone :: "nat \<Rightarrow> state \<Rightarrow> state \<Rightarrow> bool" where
  "leaves_alone h s s' =
     (length (seqs s) \<le> length (seqs s') \<and>
      (\<forall>t \<in> set (timers s'). t \<in> set (timers s) \<or> owner (cb t) \<noteq> Some h) \<and>
      filter (about h) (trace s') = filter (about h) (trace s))"

text \<open>
  Three states of an easy game without a device. In \<open>awaiting_guess\<close> the triad of
  the first round has been played and the target note E chosen. In \<open>two_replays\<close> the
  player has then pressed the replay button of the passage twice, 100 ms apart. In
  \<open>after_exit\<close> the player has then left the game through the exit dialog.
\<close>

definition awaiting_guess :: state where
  "awaiting_guess =
     run [Fire 0, Fire 0, Fire 0, Fire 0, Fire 0, Fire 0, Fire 0.5] (init ''easy'' False)"

definition two_replays :: state where
  "two_replays = run [ReplayScale, Elapse 100, ReplayScale] awaiting_guess"

definition after_exit :: state where
  "after_exit = run [ExitClick, ConfirmExit] two_replays"

section \<open>Lemmas\<close>

subsection \<open>What each operation changes\<close>

lemma playNote_frame [simp]:
  "now (playNote n d s) = now s" "timers (playNote n d s) = timers s"
  "next_timer (playNote n d s) = next_timer s" "seqs (playNote n d s) = seqs s"
  "trace (playNote n d s) = trace s" "gameState (playNote n d s) = gameState s"
  "difficulty (playNote n d s) = difficulty s" "arduinoPort (playNote n d s) = arduinoPort s"
  "score (playNote n d s) = score s" "currentNote (playNote n d s) = currentNote s"
  "status (playNote n d s) = status s" "round (playNote n d s) = round s"
  "availableNotes (playNote n d s) = availableNotes s"
  "showExitConfirm (playNote n d s) = showExitConfirm s"
  "audioContext (playNote n d s) = audioContext s"
  "audioCleanupRef (playNote n d s) = audioCleanupRef s"
  "mountTimer (playNote n d s) = mountTimer s"
  "pressTimeoutRef (playNote n d s) = pressTimeoutRef s"
  by (simp_all add: playNote_def Let_def split: option.splits)

lemma stopAllAudio_frame [simp]:
  "now (stopAllAudio s) = now s" "timers (stopAllAudio s) = timers s"
  "next_timer (stopAllAudio s) = next_timer s" "seqs (stopAllAudio s) = seqs s"
  "trace (stopAllAudio s) = trace s" "gameState (stopAllAudio s) = gameState s"
  "difficulty (stopAllAudio s) = difficulty s" "arduinoPort (stopAllAudio s) = arduinoPort s"
  "score (stopAllAudio s) = score s" "currentNote (stopAllAudio s) = currentNote s"
  "status (stopAllAudio s) = status s" "round (stopAllAudio s) = round s"
  "availableNotes (stopAllAudio s) = availableNotes s"
  "showExitConfirm (stopAllAudio s) = showExitConfirm s"
  "audioContext (stopAllAudio s) = audioContext s"
  "audioCleanupRef (stopAllAudio s) = audioCleanupRef s"
  "mountTimer (stopAllAudio s) = mountTimer s"
  "pressTimeoutRef (stopAllAudio s) = pressTimeoutRef s"
  by (simp_all add: stopAllAudio_def)

lemma onended_frame [simp]:
  "now (onended i s) = now s" "timers (onended i s) = timers s"
  "next_timer (onended i s) = next_timer s" "seqs (onended i s) = seqs s"
  "trace (onended i s) = trace s" "gameState (onended i s) = gameState s"
  "difficulty (onended i s) = difficulty s" "arduinoPort (onended i s) = arduinoPort s"
  "score (onended i s) = score s" "currentNote (onended i s) = currentNote s"
  "status (onended i s) = status s" "round (onended i s) = round s"
  "availableNotes (onended i s) = availableNotes s"
  "showExitConfirm (onended i s) = showExitConfirm s"
  "audioContext (onended i s) = audioContext s"
  "audioCleanupRef (onended i s) = audioCleanupRef s" "mountTimer (onended i s) = mountTimer s"
  "pressTimeoutRef (onended i s) = pressTimeoutRef s"
  by (simp_all add: onended_def)

lemma releaseKey_frame [simp]:
  "now (releaseKey n s) = now s" "timers (releaseKey n s) = timers s"
  "next_timer (releaseKey n s) = next_timer s" "seqs (releaseKey n s) = seqs s"
  "trace (releaseKey n s) = trace s" "gameState (releaseKey n s) = gameState s"
  "difficulty (releaseKey n s) = difficulty s" "arduinoPort (releaseKey n s) = arduinoPort s"
  "score (releaseKey n s) = score s" "currentNote (releaseKey n s) = currentNote s"
  "status (releaseKey n s) = status s" "round (releaseKey n s) = round s"
  "availableNotes (releaseKey n s) = availableNotes s"
  "showExitConfirm (releaseKey n s) = showExitConfirm s"
  "audioContext (releaseKey n s) = audioContext s"
  "audioCleanupRef (releaseKey n s) = audioCleanupRef s"
  "mountTimer (releaseKey n s) = mountTimer s"
  "pressTimeoutRef (releaseKey n s) = pressTimeoutRef s"
  by (simp_all add: releaseKey_def)

lemma initializeAudioContext_frame [simp]:
  "now (initializeAudioContext s) = now s" "timers (initializeAudioContext s) = timers s"
  "next_timer (initializeAudioContext s) = next_timer s"
  "seqs (initializeAudioContext s) = seqs s" "trace (initializeAudioContext s) = trace s"
  "gameState (initializeAudioContext s) = gameState s"
  "difficulty (initializeAudioContext s) = difficulty s"
  "arduinoPort (initializeAudioContext s) = arduinoPort s"
  "score (initializeAudioContext s) = score s"
  "currentNote (initializeAudioContext s) = currentNote s"
  "status (initializeAudioContext s) = status s" "round (initializeAudioContext s) = round s"
  "availableNotes (initializeAudioContext s) = availableNotes s"
  "showExitConfirm (initializeAudioContext s) = showExitConfirm s"
  "audioCleanupRef (initializeAudioContext s) = audioCleanupRef s"
  "mountTimer (initializeAudioContext s) = mountTimer s"
  "pressTimeoutRef (initializeAudioContext s) = pressTimeoutRef s"
  by (simp_all add: initializeAudioContext_def)

lemma clearTimeout_frame [simp]:
  "now (clearTimeout i s) = now s" "next_timer (clearTimeout i s) = next_timer s"
  "seqs (clearTimeout i s) = seqs s" "trace (clearTimeout i s) = trace s"
  "gameState (clearTimeout i s) = gameState s" "difficulty (clearTimeout i s) = difficulty s"
  "arduinoPort (clearTimeout i s) = arduinoPort s" "score (clearTimeout i s) = score s"
  "currentNote (clearTimeout i s) = currentNote s" "status (clearTimeout i s) = status s"
  "round (clearTimeout i s) = round s" "availableNotes (clearTimeout i s) = availableNotes s"
  "showExitConfirm (clearTimeout i s) = showExitConfirm s"
  "audioContext (clearTimeout i s) = audioContext s"
  "audioCleanupRef (clearTimeout i s) = audioCleanupRef s"
  "mountTimer (clearTimeout i s) = mountTimer s"
  "pressTimeoutRef (clearTimeout i s) = pressTimeoutRef s"
  by (simp_all add: clearTimeout_def)

lemma clearTimeout_timers [simp]:
  "timers (clearTimeout i s) = filter (\<lambda>t. tid t \<noteq> i) (timers s)"
  by (simp add: clearTimeout_def)

lemma pianoCleanup_frame [simp]:
  "now (pianoCleanup s) = now s" "next_timer (pianoCleanup s) = next_timer s"
  "seqs (pianoCleanup s) = seqs s" "trace (pianoCleanup s) = trace s"
  "gameState (pianoCleanup s) = gameState s" "difficulty (pianoCleanup s) = difficulty s"
  "arduinoPort (pianoCleanup s) = arduinoPort s" "score (pianoCleanup s) = score s"
  "currentNote (pianoCleanup s) = currentNote s" "status (pianoCleanup s) = status s"
  "round (pianoCleanup s) = round s" "availableNotes (pianoCleanup s) = availableNotes s"
  "showExitConfirm (pianoCleanup s) = showExitConfirm s"
  "audioContext (pianoCleanup s) = audioContext s"
  "audioCleanupRef (pianoCleanup s) = audioCleanupRef s"
  "mountTimer (pianoCleanup s) = mountTimer s"
  "pressTimeoutRef (pianoCleanup s) = pressTimeoutRef s"
  by (simp_all add: pianoCleanup_def)

lemma cleanup_frame [simp]:
  "now (cleanup h s) = now s" "next_timer (cleanup h s) = next_timer s"
  "seqs (cleanup h s) = seqs s" "trace (cleanup h s) = trace s"
  "gameState (cleanup h s) = gameState s" "difficulty (cleanup h s) = difficulty s"
  "arduinoPort (cleanup h s) = arduinoPort s" "score (cleanup h s) = score s"
  "currentNote (cleanup h s) = currentNote s" "status (cleanup h s) = status s"
  "round (cleanup h s) = round s" "availableNotes (cleanup h s) = availableNotes s"
  "showExitConfirm (cleanup h s) = showExitConfirm s"
  "audioContext (cleanup h s) = audioContext s"
  "audioCleanupRef (cleanup h s) = audioCleanupRef s" "mountTimer (cleanup h s) = mountTimer s"
  "pressTimeoutRef (cleanup h s) = pressTimeoutRef s"
  by (simp_all add: cleanup_def split: option.splits)

lemma cleanup_timers:
  "timers (cleanup h s) =
     (if h < length (seqs s) then
        (case timeoutId (seqs s ! h) of
           None \<Rightarrow> timers s
         | Some i \<Rightarrow> if i \<noteq> 0 then filter (\<lambda>t. tid t \<noteq> i) (timers s) else timers s)
      else timers s)"
  by (simp add: cleanup_def split: option.splits)

lemma callAudioCleanup_frame [simp]:
  "now (callAudioCleanup s) = now s" "next_timer (callAudioCleanup s) = next_timer s"
  "seqs (callAudioCleanup s) = seqs s" "trace (callAudioCleanup s) = trace s"
  "gameState (callAudioCleanup s) = gameState s"
  "difficulty (callAudioCleanup s) = difficulty s"
  "arduinoPort (callAudioCleanup s) = arduinoPort s" "score (callAudioCleanup s) = score s"
  "currentNote (callAudioCleanup s) = currentNote s" "status (callAudioCleanup s) = status s"
  "round (callAudioCleanup s) = round s"
  "availableNotes (callAudioCleanup s) = availableNotes s"
  "showExitConfirm (callAudioCleanup s) = showExitConfirm s"
  "audioContext (callAudioCleanup s) = audioContext s"
  "audioCleanupRef (callAudioCleanup s) = audioCleanupRef s"
  "mountTimer (callAudioCleanup s) = mountTimer s"
  "pressTimeoutRef (callAudioCleanup s) = pressTimeoutRef s"
  by (simp_all add: callAudioCleanup_def split: option.splits)

lemma callAudioCleanup_timers:
  "timers (callAudioCleanup s) =
     filter (\<lambda>t. \<not> (\<exists>h. audioCleanupRef s = Some h \<and> h < length (seqs s) \<and>
                         timeoutId (seqs s ! h) = Some (tid t) \<and> tid t \<noteq> 0))
            (timers s)"
  by (auto simp add: callAudioCleanup_def cleanup_timers split: option.splits intro: filter_cong)

lemma unmount_frame [simp]:
  "now (unmount s) = now s" "next_timer (unmount s) = next_timer s" "seqs (unmount s) = seqs s"
  "trace (unmount s) = trace s" "gameState (unmount s) = gameState s"
  "difficulty (unmount s) = difficulty s" "arduinoPort (unmount s) = arduinoPort s"
  "score (unmount s) = score s" "currentNote (unmount s) = currentNote s"
  "status (unmount s) = status s" "round (unmount s) = round s"
  "availableNotes (unmount s) = availableNotes s"
  "showExitConfirm (unmount s) = showExitConfirm s" "audioContext (unmount s) = audioContext s"
  "audioCleanupRef (unmount s) = audioCleanupRef s" "mountTimer (unmount s) = mountTimer s"
  "pressTimeoutRef (unmount s) = pressTimeoutRef s"
  by (simp_all add: unmount_def Let_def)

lemma unmount_timers:
  "timers (unmount s) =
     filter (\<lambda>t. \<not> (\<exists>h. audioCleanupRef s = Some h \<and> h < length (seqs s) \<and>
                         timeoutId (seqs s ! h) = Some (tid t) \<and> tid t \<noteq> 0))
       (filter (\<lambda>t. tid t \<noteq> mountTimer s)
          (filter (\<lambda>t. \<not> (\<exists>n \<in> set allNotes. pressTimeoutRef s n = Some (tid t) \<and> tid t \<noteq> 0))
             (timers s)))"
  by (simp add: unmount_def Let_def callAudioCleanup_timers pianoCleanup_def)

lemma pressKey_frame [simp]:
  "now (pressKey n s) = now s" "seqs (pressKey n s) = seqs s" "trace (pressKey n s) = trace s"
  "gameState (pressKey n s) = gameState s" "difficulty (pressKey n s) = difficulty s"
  "arduinoPort (pressKey n s) = arduinoPort s" "score (pressKey n s) = score s"
  "currentNote (pressKey n s) = currentNote s" "status (pressKey n s) = status s"
  "round (pressKey n s) = round s" "availableNotes (pressKey n s) = availableNotes s"
  "showExitConfirm (pressKey n s) = showExitConfirm s"
  "audioContext (pressKey n s) = audioContext s"
  "audioCleanupRef (pressKey n s) = audioCleanupRef s"
  "mountTimer (pressKey n s) = mountTimer s"
  by (simp_all add: pressKey_def Let_def setTimeout_def split: option.splits)

lemma pressKey_effect:
  "timers (pressKey n s) =
     filter (\<lambda>t. \<not> (pressTimeoutRef s n = Some (tid t) \<and> tid t \<noteq> 0)) (timers s) @
       [Timer (next_timer s) (now s + 200) (ReleaseKey n)]"
  "next_timer (pressKey n s) = Suc (next_timer s)"
  "pressTimeoutRef (pressKey n s) = (pressTimeoutRef s)(n \<mapsto> next_timer s)"
  by (auto simp add: pressKey_def Let_def setTimeout_def split: option.splits
        intro: filter_cong)

lemma playNextNote_frame [simp]:
  "now (playNextNote h s) = now s" "gameState (playNextNote h s) = gameState s"
  "difficulty (playNextNote h s) = difficulty s"
  "arduinoPort (playNextNote h s) = arduinoPort s" "score (playNextNote h s) = score s"
  "currentNote (playNextNote h s) = currentNote s" "status (playNextNote h s) = status s"
  "round (playNextNote h s) = round s" "availableNotes (playNextNote h s) = availableNotes s"
  "showExitConfirm (playNextNote h s) = showExitConfirm s"
  "audioContext (playNextNote h s) = audioContext s"
  "audioCleanupRef (playNextNote h s) = audioCleanupRef s"
  "mountTimer (playNextNote h s) = mountTimer s"
  "pressTimeoutRef (playNextNote h s) = pressTimeoutRef s"
  by (simp_all add: playNextNote_def Let_def setTimeout_def record_obs_def)

lemma playNextNote_effect:
  "timers (playNextNote h s) =
     (if h < length (seqs s) then
        timers s @
          [if seq_index (seqs s ! h) < length (seq_notes (seqs s ! h))
           then Timer (next_timer s) (now s + 700) (PlayNextNote h)
           else Timer (next_timer s) (now s + 600) (OnComplete h)]
      else timers s)"
  "next_timer (playNextNote h s) =
     (if h < length (seqs s) then Suc (next_timer s) else next_timer s)"
  "seqs (playNextNote h s) =
     (if h < length (seqs s) then
        (seqs s)
          [h := (if seq_index (seqs s ! h) < length (seq_notes (seqs s ! h))
                 then (seqs s ! h)\<lparr>seq_index := Suc (seq_index (seqs s ! h)),
                                   timeoutId := Some (next_timer s)\<rparr>
                 else (seqs s ! h)\<lparr>timeoutId := Some (next_timer s)\<rparr>)]
      else seqs s)"
  "trace (playNextNote h s) =
     (if h < length (seqs s) \<and> seq_index (seqs s ! h) < length (seq_notes (seqs s ! h))
      then trace s @
             [NoteTriggered h (seq_index (seqs s ! h))
                (seq_notes (seqs s ! h) ! seq_index (seqs s ! h)) 0.6 (now s)]
      else trace s)"
  by (simp_all add: playNextNote_def Let_def setTimeout_def record_obs_def)

lemma playSequence_frame [simp]:
  "now (snd (playSequence notes f s)) = now s"
  "gameState (snd (playSequence notes f s)) = gameState s"
  "difficulty (snd (playSequence notes f s)) = difficulty s"
  "arduinoPort (snd (playSequence notes f s)) = arduinoPort s"
  "score (snd (playSequence notes f s)) = score s"
  "currentNote (snd (playSequence notes f s)) = currentNote s"
  "status (snd (playSequence notes f s)) = status s"
  "round (snd (playSequence notes f s)) = round s"
  "availableNotes (snd (playSequence notes f s)) = availableNotes s"
  "showExitConfirm (snd (playSequence notes f s)) = showExitConfirm s"
  "audioContext (snd (playSequence notes f s)) = audioContext s"
  "audioCleanupRef (snd (playSequence notes f s)) = audioCleanupRef s"
  "mountTimer (snd (playSequence notes f s)) = mountTimer s"
  "pressTimeoutRef (snd (playSequence notes f s)) = pressTimeoutRef s"
  by (simp_all add: playSequence_def Let_def)

text \<open>
  A new player triggers its first note at once and sets the timer of the second
  step; a player of no notes would set the timer of its completion.
\<close>

lemma playSequence_effect:
  "fst (playSequence notes f s) = length (seqs s)"
  "timers (snd (playSequence notes f s)) =
     timers s @
       [if notes \<noteq> [] then Timer (next_timer s) (now s + 700) (PlayNextNote (length (seqs s)))
        else Timer (next_timer s) (now s + 600) (OnComplete (length (seqs s)))]"
  "next_timer (snd (playSequence notes f s)) = Suc (next_timer s)"
  "seqs (snd (playSequence notes f s)) =
     seqs s @
       [\<lparr>seq_notes = notes, seq_index = (if notes \<noteq> [] then 1 else 0),
         timeoutId = Some (next_timer s), onComplete = f, seq_started = now s\<rparr>]"
  "trace (snd (playSequence notes f s)) =
     (if notes \<noteq> [] then trace s @ [NoteTriggered (length (seqs s)) 0 (notes ! 0) 0.6 (now s)]
      else trace s)"
  by (simp_all add: playSequence_def Let_def playNextNote_effect)

subsection \<open>What the handlers of the game screen change\<close>

lemma handleExitClick_frame [simp]:
  "now (handleExitClick s) = now s" "timers (handleExitClick s) = timers s"
  "next_timer (handleExitClick s) = next_timer s" "seqs (handleExitClick s) = seqs s"
  "trace (handleExitClick s) = trace s" "gameState (handleExitClick s) = gameState s"
  "difficulty (handleExitClick s) = difficulty s"
  "arduinoPort (handleExitClick s) = arduinoPort s" "score (handleExitClick s) = score s"
  "currentNote (handleExitClick s) = currentNote s" "status (handleExitClick s) = status s"
  "round (handleExitClick s) = round s" "availableNotes (handleExitClick s) = availableNotes s"
  "audioContext (handleExitClick s) = audioContext s"
  "audioCleanupRef (handleExitClick s) = audioCleanupRef s"
  "mountTimer (handleExitClick s) = mountTimer s"
  "pressTimeoutRef (handleExitClick s) = pressTimeoutRef s"
  by (simp_all add: handleExitClick_def)

lemma cancelExit_frame [simp]:
  "now (cancelExit s) = now s" "timers (cancelExit s) = timers s"
  "next_timer (cancelExit s) = next_timer s" "seqs (cancelExit s) = seqs s"
  "trace (cancelExit s) = trace s" "gameState (cancelExit s) = gameState s"
  "difficulty (cancelExit s) = difficulty s" "arduinoPort (cancelExit s) = arduinoPort s"
  "score (cancelExit s) = score s" "currentNote (cancelExit s) = currentNote s"
  "status (cancelExit s) = status s" "round (cancelExit s) = round s"
  "availableNotes (cancelExit s) = availableNotes s"
  "audioContext (cancelExit s) = audioContext s"
  "audioCleanupRef (cancelExit s) = audioCleanupRef s"
  "mountTimer (cancelExit s) = mountTimer s"
  "pressTimeoutRef (cancelExit s) = pressTimeoutRef s"
  by (simp_all add: cancelExit_def)

lemma replayCurrentNote_frame [simp]:
  "now (replayCurrentNote s) = now s" "timers (replayCurrentNote s) = timers s"
  "next_timer (replayCurrentNote s) = next_timer s" "seqs (replayCurrentNote s) = seqs s"
  "trace (replayCurrentNote s) = trace s" "gameState (replayCurrentNote s) = gameState s"
  "difficulty (replayCurrentNote s) = difficulty s"
  "arduinoPort (replayCurrentNote s) = arduinoPort s" "score (replayCurrentNote s) = score s"
  "currentNote (replayCurrentNote s) = currentNote s" "status (replayCurrentNote s) = status s"
  "round (replayCurrentNote s) = round s"
  "availableNotes (replayCurrentNote s) = availableNotes s"
  "showExitConfirm (replayCurrentNote s) = showExitConfirm s"
  "audioContext (replayCurrentNote s) = audioContext s"
  "audioCleanupRef (replayCurrentNote s) = audioCleanupRef s"
  "mountTimer (replayCurrentNote s) = mountTimer s"
  "pressTimeoutRef (replayCurrentNote s) = pressTimeoutRef s"
  by (simp_all add: replayCurrentNote_def split: option.splits)

lemma selectRandomNote_frame [simp]:
  "now (selectRandomNote notes r s) = now s" "timers (selectRandomNote notes r s) = timers s"
  "next_timer (selectRandomNote notes r s) = next_timer s"
  "seqs (selectRandomNote notes r s) = seqs s" "trace (selectRandomNote notes r s) = trace s"
  "gameState (selectRandomNote notes r s) = gameState s"
  "difficulty (selectRandomNote notes r s) = difficulty s"
  "arduinoPort (selectRandomNote notes r s) = arduinoPort s"
  "score (selectRandomNote notes r s) = score s" "round (selectRandomNote notes r s) = round s"
  "availableNotes (selectRandomNote notes r s) = availableNotes s"
  "showExitConfirm (selectRandomNote notes r s) = showExitConfirm s"
  "audioContext (selectRandomNote notes r s) = audioContext s"
  "audioCleanupRef (selectRandomNote notes r s) = audioCleanupRef s"
  "mountTimer (selectRandomNote notes r s) = mountTimer s"
  "pressTimeoutRef (selectRandomNote notes r s) = pressTimeoutRef s"
  by (simp_all add: selectRandomNote_def Let_def split: option.splits)

lemma selectRandomNote_effect:
  "status (selectRandomNote notes r s) = Guessing"
  "currentNote (selectRandomNote notes r s) =
     (if 0 \<le> \<lfloor>r * real (length notes)\<rfloor> \<and> \<lfloor>r * real (length notes)\<rfloor> < int (length notes)
      then Some (notes ! nat \<lfloor>r * real (length notes)\<rfloor>) else None)"
  by (simp_all add: selectRandomNote_def Let_def split: option.splits)

lemma initializeGame_frame [simp]:
  "now (initializeGame s) = now s" "gameState (initializeGame s) = gameState s"
  "difficulty (initializeGame s) = difficulty s"
  "arduinoPort (initializeGame s) = arduinoPort s" "score (initializeGame s) = score s"
  "currentNote (initializeGame s) = currentNote s" "round (initializeGame s) = round s"
  "showExitConfirm (initializeGame s) = showExitConfirm s"
  "mountTimer (initializeGame s) = mountTimer s"
  "pressTimeoutRef (initializeGame s) = pressTimeoutRef s"
  by (simp_all add: initializeGame_def Let_def playTriad_def playScale_def split_beta)

lemma initializeGame_effect:
  "timers (initializeGame s) =
     timers s @ [Timer (next_timer s) (now s + 700) (PlayNextNote (length (seqs s)))]"
  "next_timer (initializeGame s) = Suc (next_timer s)"
  "seqs (initializeGame s) =
     seqs s @
       [\<lparr>seq_notes = (if difficulty s = ''easy'' then [C, E, G, E, C]
                      else [C, D, E, F, G, A, B]),
         seq_index = 1, timeoutId = Some (next_timer s),
         onComplete = SelectRandomNote (getAvailableNotes (difficulty s)),
         seq_started = now s\<rparr>]"
  "trace (initializeGame s) = trace s @ [NoteTriggered (length (seqs s)) 0 C 0.6 (now s)]"
  "status (initializeGame s) = Playing"
  "availableNotes (initializeGame s) = getAvailableNotes (difficulty s)"
  "audioContext (initializeGame s) =
     (case audioContext s of None \<Rightarrow> Some (now s) | Some c \<Rightarrow> Some c)"
  "audioCleanupRef (initializeGame s) = Some (length (seqs s))"
  by (simp_all add: initializeGame_def Let_def playTriad_def playScale_def split_beta
        playSequence_effect initializeAudioContext_def split: option.splits)

lemma replayScale_frame [simp]:
  "now (replayScale s) = now s" "gameState (replayScale s) = gameState s"
  "difficulty (replayScale s) = difficulty s" "arduinoPort (replayScale s) = arduinoPort s"
  "score (replayScale s) = score s" "currentNote (replayScale s) = currentNote s"
  "status (replayScale s) = status s" "round (replayScale s) = round s"
  "availableNotes (replayScale s) = availableNotes s"
  "showExitConfirm (replayScale s) = showExitConfirm s"
  "audioContext (replayScale s) = audioContext s" "mountTimer (replayScale s) = mountTimer s"
  "pressTimeoutRef (replayScale s) = pressTimeoutRef s"
  by (simp_all add: replayScale_def Let_def playTriad_def playScale_def split_beta)

lemma replayScale_effect:
  assumes "status s = Guessing"
  shows
  "timers (replayScale s) =
     timers s @ [Timer (next_timer s) (now s + 700) (PlayNextNote (length (seqs s)))]"
  "next_timer (replayScale s) = Suc (next_timer s)"
  "seqs (replayScale s) =
     seqs s @
       [\<lparr>seq_notes = (if difficulty s = ''easy'' then [C, E, G, E, C]
                      else [C, D, E, F, G, A, B]),
         seq_index = 1, timeoutId = Some (next_timer s), onComplete = AskWhichNote,
         seq_started = now s\<rparr>]"
  "trace (replayScale s) = trace s @ [NoteTriggered (length (seqs s)) 0 C 0.6 (now s)]"
  "audioCleanupRef (replayScale s) = Some (length (seqs s))"
  using assms
  by (simp_all add: replayScale_def Let_def playTriad_def playScale_def split_beta
        playSequence_effect)

lemma handleNoteGuess_frame [simp]:
  "now (handleNoteGuess g s) = now s" "seqs (handleNoteGuess g s) = seqs s"
  "gameState (handleNoteGuess g s) = gameState s"
  "difficulty (handleNoteGuess g s) = difficulty s"
  "arduinoPort (handleNoteGuess g s) = arduinoPort s"
  "currentNote (handleNoteGuess g s) = currentNote s" "round (handleNoteGuess g s) = round s"
  "availableNotes (handleNoteGuess g s) = availableNotes s"
  "showExitConfirm (handleNoteGuess g s) = showExitConfirm s"
  "audioContext (handleNoteGuess g s) = audioContext s"
  "audioCleanupRef (handleNoteGuess g s) = audioCleanupRef s"
  "mountTimer (handleNoteGuess g s) = mountTimer s"
  "pressTimeoutRef (handleNoteGuess g s) = pressTimeoutRef s"
  by (simp_all add: handleNoteGuess_def Let_def setTimeout_def record_obs_def)

lemma handleNoteGuess_ignored: "status s \<noteq> Guessing \<Longrightarrow> handleNoteGuess g s = s"
  by (simp add: handleNoteGuess_def)

lemma handleNoteGuess_effect:
  assumes "status s = Guessing"
  shows
  "timers (handleNoteGuess g s) =
     timers s @
       [Timer (next_timer s) (now s + 2500)
          (AfterFeedback (round s) (Some g = currentNote s) (score s))]"
  "next_timer (handleNoteGuess g s) = Suc (next_timer s)"
  "trace (handleNoteGuess g s) = trace s @ [GuessHandled (round s) g (Some g = currentNote s)]"
  "status (handleNoteGuess g s) = Feedback"
  "score (handleNoteGuess g s) = (if Some g = currentNote s then score s + 1 else score s)"
  using assms
  by (simp_all add: handleNoteGuess_def Let_def setTimeout_def record_obs_def)

lemma App_endGame_frame [simp]:
  "now (App_endGame f q s) = now s" "next_timer (App_endGame f q s) = next_timer s"
  "seqs (App_endGame f q s) = seqs s" "difficulty (App_endGame f q s) = difficulty s"
  "arduinoPort (App_endGame f q s) = arduinoPort s" "score (App_endGame f q s) = score s"
  "currentNote (App_endGame f q s) = currentNote s" "status (App_endGame f q s) = status s"
  "round (App_endGame f q s) = round s" "availableNotes (App_endGame f q s) = availableNotes s"
  "showExitConfirm (App_endGame f q s) = showExitConfirm s"
  "audioContext (App_endGame f q s) = audioContext s"
  "audioCleanupRef (App_endGame f q s) = audioCleanupRef s"
  "mountTimer (App_endGame f q s) = mountTimer s"
  "pressTimeoutRef (App_endGame f q s) = pressTimeoutRef s"
  by (simp_all add: App_endGame_def Let_def record_obs_def)

lemma App_endGame_effect:
  "timers (App_endGame f q s) = (if mounted s then timers (unmount s) else timers s)"
  "trace (App_endGame f q s) = trace s @ [EndGameCalled f q (now s)]"
  "gameState (App_endGame f q s) = GS_scores"
  by (simp_all add: App_endGame_def Let_def record_obs_def unmount_timers)

lemma App_exitGame_frame [simp]:
  "now (App_exitGame s) = now s" "next_timer (App_exitGame s) = next_timer s"
  "seqs (App_exitGame s) = seqs s" "difficulty (App_exitGame s) = difficulty s"
  "arduinoPort (App_exitGame s) = arduinoPort s" "score (App_exitGame s) = score s"
  "currentNote (App_exitGame s) = currentNote s" "status (App_exitGame s) = status s"
  "round (App_exitGame s) = round s" "availableNotes (App_exitGame s) = availableNotes s"
  "showExitConfirm (App_exitGame s) = showExitConfirm s"
  "audioContext (App_exitGame s) = audioContext s"
  "audioCleanupRef (App_exitGame s) = audioCleanupRef s"
  "mountTimer (App_exitGame s) = mountTimer s"
  "pressTimeoutRef (App_exitGame s) = pressTimeoutRef s"
  by (simp_all add: App_exitGame_def Let_def record_obs_def)

lemma App_exitGame_effect:
  "timers (App_exitGame s) = (if mounted s then timers (unmount s) else timers s)"
  "trace (App_exitGame s) = trace s @ [ExitGameCalled (now s)]"
  "gameState (App_exitGame s) = GS_welcome"
  by (simp_all add: App_exitGame_def Let_def record_obs_def unmount_timers)

lemma endGame_frame [simp]:
  "now (endGame fs s) = now s" "next_timer (endGame fs s) = next_timer s"
  "seqs (endGame fs s) = seqs s" "difficulty (endGame fs s) = difficulty s"
  "arduinoPort (endGame fs s) = arduinoPort s" "score (endGame fs s) = score s"
  "currentNote (endGame fs s) = currentNote s" "status (endGame fs s) = status s"
  "round (endGame fs s) = round s" "availableNotes (endGame fs s) = availableNotes s"
  "showExitConfirm (endGame fs s) = showExitConfirm s"
  "audioContext (endGame fs s) = audioContext s"
  "audioCleanupRef (endGame fs s) = audioCleanupRef s"
  "mountTimer (endGame fs s) = mountTimer s"
  "pressTimeoutRef (endGame fs s) = pressTimeoutRef s"
  by (simp_all add: endGame_def Let_def)

lemma endGame_effect:
  "timers (endGame fs s) =
     (if mounted s then timers (unmount (callAudioCleanup s)) else timers (callAudioCleanup s))"
  "trace (endGame fs s) =
     trace s @ [EndGameCalled (case fs of Some f \<Rightarrow> f | None \<Rightarrow> score s) (totalRounds s) (now s)]"
  "gameState (endGame fs s) = GS_scores"
  by (simp_all add: endGame_def Let_def App_endGame_effect mounted_def totalRounds_def
        unmount_timers callAudioCleanup_timers split: option.splits)

lemma confirmExit_frame [simp]:
  "now (confirmExit s) = now s" "next_timer (confirmExit s) = next_timer s"
  "seqs (confirmExit s) = seqs s" "difficulty (confirmExit s) = difficulty s"
  "arduinoPort (confirmExit s) = arduinoPort s" "score (confirmExit s) = score s"
  "currentNote (confirmExit s) = currentNote s" "status (confirmExit s) = status s"
  "round (confirmExit s) = round s" "availableNotes (confirmExit s) = availableNotes s"
  "showExitConfirm (confirmExit s) = showExitConfirm s"
  "audioContext (confirmExit s) = audioContext s"
  "audioCleanupRef (confirmExit s) = audioCleanupRef s"
  "mountTimer (confirmExit s) = mountTimer s"
  "pressTimeoutRef (confirmExit s) = pressTimeoutRef s"
  by (simp_all add: confirmExit_def Let_def)

lemma confirmExit_effect:
  "timers (confirmExit s) =
     (if mounted s then timers (unmount (callAudioCleanup s)) else timers (callAudioCleanup s))"
  "trace (confirmExit s) = trace s @ [ExitGameCalled (now s)]"
  "gameState (confirmExit s) = GS_welcome"
  by (simp_all add: confirmExit_def Let_def App_exitGame_effect mounted_def
        unmount_timers callAudioCleanup_timers)

lemma afterFeedback_frame [simp]:
  "now (afterFeedback r c sc s) = now s" "seqs (afterFeedback r c sc s) = seqs s"
  "difficulty (afterFeedback r c sc s) = difficulty s"
  "arduinoPort (afterFeedback r c sc s) = arduinoPort s"
  "score (afterFeedback r c sc s) = score s"
  "currentNote (afterFeedback r c sc s) = currentNote s"
  "availableNotes (afterFeedback r c sc s) = availableNotes s"
  "showExitConfirm (afterFeedback r c sc s) = showExitConfirm s"
  "audioContext (afterFeedback r c sc s) = audioContext s"
  "audioCleanupRef (afterFeedback r c sc s) = audioCleanupRef s"
  "mountTimer (afterFeedback r c sc s) = mountTimer s"
  "pressTimeoutRef (afterFeedback r c sc s) = pressTimeoutRef s"
  by (simp_all add: afterFeedback_def setTimeout_def)

lemma afterFeedback_last:
  "totalRounds s \<le> r \<Longrightarrow>
     afterFeedback r c sc s = endGame (Some (if c then sc + 1 else sc)) s"
  by (simp add: afterFeedback_def)

lemma afterFeedback_next:
  assumes "r < totalRounds s"
  shows
  "timers (afterFeedback r c sc s) =
     timers s @ [Timer (next_timer s) (now s + 1500) InitializeGame]"
  "next_timer (afterFeedback r c sc s) = Suc (next_timer s)"
  "trace (afterFeedback r c sc s) = trace s"
  "gameState (afterFeedback r c sc s) = gameState s"
  "status (afterFeedback r c sc s) = Initial"
  "round (afterFeedback r c sc s) = r + 1"
  using assms by (simp_all add: afterFeedback_def setTimeout_def)

lemma init_fields [simp]:
  "now (init d port) = 0" "timers (init d port) = [Timer 1 2000 InitializeGame]"
  "next_timer (init d port) = 2" "activeAudioSources (init d port) = []"
  "stopped (init d port) = []" "destination (init d port) = []" "next_osc (init d port) = 0"
  "seqs (init d port) = []" "gameState (init d port) = GS_playing"
  "difficulty (init d port) = d" "arduinoPort (init d port) = port" "score (init d port) = 0"
  "currentNote (init d port) = None" "status (init d port) = Initial"
  "round (init d port) = 1" "availableNotes (init d port) = []"
  "showExitConfirm (init d port) = False" "audioContext (init d port) = None"
  "audioCleanupRef (init d port) = None" "mountTimer (init d port) = 1"
  "pressedKeys (init d port) = {}" "pressTimeoutRef (init d port) = (\<lambda>n. None)"
  "trace (init d port) = []"
  by (simp_all add: init_def)

lemma reachable_init: "reachable (init d port)"
  unfolding reachable_def by (rule exI [of _ d], rule exI [of _ port], rule exI [of _ "[]"]) simp

lemma reachable_step: "reachable s \<Longrightarrow> reachable (step e s)"
proof -
  have r: "run (es @ [e]) u = step e (run es u)" for es u
    by (induction es arbitrary: u) simp_all
  assume "reachable s"
  then obtain d port es where "s = run es (init d port)" by (auto simp add: reachable_def)
  then have "step e s = run (es @ [e]) (init d port)" by (simp add: r)
  then show ?thesis unfolding reachable_def by blast
qed

lemma reachable_run: "reachable s \<Longrightarrow> reachable (run es s)"
  by (induction es arbitrary: s) (simp_all add: reachable_step)

subsection \<open>The timer that fires next\<close>

lemma earliest_None: "earliest ts = None \<longleftrightarrow> ts = []"
  by (induction ts) (auto split: option.splits)

lemma earliest_Some:
  "earliest ts = Some t \<Longrightarrow> t \<in> set ts \<and> (\<forall>u \<in> set ts. due t \<le> due u)"
proof (induction ts arbitrary: t)
  case Nil
  then show ?case by simp
next
  case (Cons a ts)
  show ?case
  proof (cases "earliest ts")
    case None
    with Cons.prems show ?thesis by (simp add: earliest_None)
  next
    case (Some u)
    with Cons.prems Cons.IH [OF Some] show ?thesis
      by (auto split: if_splits)
  qed
qed

text \<open>The state in which the callback of the timer \<open>t\<close> runs.\<close>

lemma distinct_tid_remove1:
  "distinct (map tid ts) \<Longrightarrow> t \<in> set ts \<Longrightarrow> u \<in> set (remove1 t ts) \<Longrightarrow> tid u \<noteq> tid t"
  by (induction ts) (auto split: if_splits simp: image_iff)

subsection \<open>The invariant of the timers\<close>

lemma timers_ok_filter:
  "timers_ok s \<Longrightarrow> now s' = now s \<Longrightarrow> next_timer s' = next_timer s \<Longrightarrow> seqs s' = seqs s \<Longrightarrow>
   timers s' = filter P (timers s) \<Longrightarrow> timers_ok s'"
  by (auto simp add: timers_ok_def distinct_map_filter)

lemma timers_ok_add:
  "timers_ok s \<Longrightarrow> now s' = now s \<Longrightarrow> next_timer s' = Suc (next_timer s) \<Longrightarrow> seqs s' = seqs s \<Longrightarrow>
   owner f = None \<Longrightarrow> timers s' = timers s @ [Timer (next_timer s) (now s + d) f] \<Longrightarrow> timers_ok s'"
  by (fastforce simp add: timers_ok_def)

lemma timers_ok_fired:
  assumes "timers_ok s" "earliest (timers s) = Some t"
  shows "timers_ok (s\<lparr>now := max (now s) (due t), timers := remove1 t (timers s)\<rparr>)"
    and "now (s\<lparr>now := max (now s) (due t), timers := remove1 t (timers s)\<rparr>) = due t"
    and "\<forall>u \<in> set (remove1 t (timers s)). owner (cb u) \<noteq> owner (cb t) \<or> owner (cb t) = None"
proof -
  from earliest_Some [OF assms(2)] have t: "t \<in> set (timers s)"
    and le: "\<forall>u \<in> set (timers s). due t \<le> due u" by auto
  from assms(1) t have "now s \<le> due t" by (simp add: timers_ok_def)
  then show 2: "now (s\<lparr>now := max (now s) (due t), timers := remove1 t (timers s)\<rparr>) = due t"
    by simp
  have sub: "set (remove1 t (timers s)) \<subseteq> set (timers s)" by (rule set_remove1_subset)
  show "timers_ok (s\<lparr>now := max (now s) (due t), timers := remove1 t (timers s)\<rparr>)"
    using assms(1) le sub \<open>now s \<le> due t\<close>
    by (auto simp add: timers_ok_def distinct_map distinct_remove1 max_def
          intro: inj_on_subset)
  show "\<forall>u \<in> set (remove1 t (timers s)). owner (cb u) \<noteq> owner (cb t) \<or> owner (cb t) = None"
  proof
    fix u assume u: "u \<in> set (remove1 t (timers s))"
    from assms(1) have d: "distinct (map tid (timers s))" by (simp add: timers_ok_def)
    have ne: "tid u \<noteq> tid t" using distinct_tid_remove1 [OF d t u] .
    show "owner (cb u) \<noteq> owner (cb t) \<or> owner (cb t) = None"
    proof (cases "owner (cb t)")
      case None
      then show ?thesis by simp
    next
      case (Some h)
      from assms(1) t Some have "timeoutId (seqs s ! h) = Some (tid t)"
        by (simp add: timers_ok_def)
      moreover have "owner (cb u) = Some h \<Longrightarrow> timeoutId (seqs s ! h) = Some (tid u)"
        using assms(1) u sub by (auto simp add: timers_ok_def)
      ultimately show ?thesis using ne Some by auto
    qed
  qed
qed

lemma timers_ok_playNextNote:
  assumes "timers_ok s" "\<forall>u \<in> set (timers s). owner (cb u) \<noteq> Some h"
  shows "timers_ok (playNextNote h s)"
proof (cases "h < length (seqs s)")
  case False
  then have "playNextNote h s = s" by (simp add: playNextNote_def)
  with assms show ?thesis by simp
next
  case True
  with assms show ?thesis
    unfolding timers_ok_def
    by (auto simp add: playNextNote_effect nth_list_update)
qed

lemma timers_ok_playSequence:
  assumes "timers_ok s"
  shows "timers_ok (snd (playSequence notes f s))"
  using assms unfolding timers_ok_def
  by (auto simp add: playSequence_effect nth_append)

lemma timers_ok_playNote [simp]: "timers_ok (playNote n d s) = timers_ok s"
  by (simp add: timers_ok_def)

lemma timers_ok_initializeGame: "timers_ok s \<Longrightarrow> timers_ok (initializeGame s)"
  unfolding timers_ok_def
  by (auto simp add: initializeGame_effect nth_append)

lemma timers_ok_replayScale: "timers_ok s \<Longrightarrow> timers_ok (replayScale s)"
proof (cases "status s = Guessing")
  case True
  assume "timers_ok s"
  then show ?thesis unfolding timers_ok_def
    by (auto simp add: replayScale_effect [OF True] nth_append)
next
  case False
  assume "timers_ok s"
  with False show ?thesis by (simp add: replayScale_def)
qed

lemma timers_ok_handleNoteGuess: "timers_ok s \<Longrightarrow> timers_ok (handleNoteGuess g s)"
proof (cases "status s = Guessing")
  case True
  assume "timers_ok s"
  then show ?thesis
    by (rule timers_ok_add) (simp_all add: handleNoteGuess_effect [OF True])
next
  case False
  assume "timers_ok s"
  with False show ?thesis by (simp add: handleNoteGuess_ignored)
qed

lemma timers_ok_pressKey: "timers_ok s \<Longrightarrow> timers_ok (pressKey n s)"
  unfolding timers_ok_def
  by (auto simp add: pressKey_effect distinct_map_filter)

lemma removes_trans:
  assumes "\<exists>P. timers s' = filter P (timers s)" "\<exists>P. timers s'' = filter P (timers s')"
  shows "\<exists>P. timers s'' = filter P (timers s)"
proof -
  from assms obtain P Q where "timers s' = filter P (timers s)" "timers s'' = filter Q (timers s')"
    by blast
  then have "timers s'' = filter (\<lambda>t. P t \<and> Q t) (timers s)" by (simp add: conj_commute)
  then show ?thesis by blast
qed

lemma removes_callAudioCleanup: "\<exists>P. timers (callAudioCleanup s) = filter P (timers s)"
  unfolding callAudioCleanup_timers by (rule exI) (rule refl)

lemma removes_unmount: "\<exists>P. timers (unmount s) = filter P (timers s)"
  unfolding unmount_timers filter_filter by (rule exI) (rule refl)

lemma pianoCleanup_timers:
  "timers (pianoCleanup s) =
     filter (\<lambda>t. \<not> (\<exists>n \<in> set allNotes. pressTimeoutRef s n = Some (tid t) \<and> tid t \<noteq> 0))
       (timers s)"
  by (simp add: pianoCleanup_def)

lemma removes_pianoCleanup: "\<exists>P. timers (pianoCleanup s) = filter P (timers s)"
  unfolding pianoCleanup_timers by (rule exI) (rule refl)

lemma removes_endGame: "\<exists>P. timers (endGame fs s) = filter P (timers s)"
proof (cases "mounted s")
  case True
  then have "timers (endGame fs s) = timers (unmount (callAudioCleanup s))"
    by (simp add: endGame_effect)
  then show ?thesis
    using removes_trans [OF removes_callAudioCleanup removes_unmount] by (simp only:)
next
  case False
  then have "timers (endGame fs s) = timers (callAudioCleanup s)"
    by (simp add: endGame_effect)
  then show ?thesis using removes_callAudioCleanup [of s] by (simp only:)
qed

lemma removes_confirmExit: "\<exists>P. timers (confirmExit s) = filter P (timers s)"
proof (cases "mounted s")
  case True
  then have "timers (confirmExit s) = timers (unmount (callAudioCleanup s))"
    by (simp add: confirmExit_effect)
  then show ?thesis
    using removes_trans [OF removes_callAudioCleanup removes_unmount] by (simp only:)
next
  case False
  then have "timers (confirmExit s) = timers (callAudioCleanup s)"
    by (simp add: confirmExit_effect)
  then show ?thesis using removes_callAudioCleanup [of s] by (simp only:)
qed

lemma timers_ok_endGame: "timers_ok s \<Longrightarrow> timers_ok (endGame fs s)"
  using removes_endGame [of fs s] by (auto intro: timers_ok_filter)

lemma timers_ok_confirmExit: "timers_ok s \<Longrightarrow> timers_ok (confirmExit s)"
  using removes_confirmExit [of s] by (auto intro: timers_ok_filter)

lemma timers_ok_pianoCleanup: "timers_ok s \<Longrightarrow> timers_ok (pianoCleanup s)"
  using removes_pianoCleanup [of s] by (auto intro: timers_ok_filter)

lemma timers_ok_afterFeedback: "timers_ok s \<Longrightarrow> timers_ok (afterFeedback r c sc s)"
proof (cases "r < totalRounds s")
  case True
  assume "timers_ok s"
  then show ?thesis
    by (rule timers_ok_add) (simp_all add: afterFeedback_next [OF True])
next
  case False
  assume "timers_ok s"
  with False show ?thesis by (simp add: afterFeedback_last timers_ok_endGame)
qed

lemma timers_ok_handleKeyPress: "timers_ok s \<Longrightarrow> timers_ok (handleKeyPress n s)"
  by (simp add: handleKeyPress_def timers_ok_pressKey timers_ok_handleNoteGuess)

lemma timers_ok_handleArduinoData: "timers_ok s \<Longrightarrow> timers_ok (handleArduinoData pin s)"
  by (simp add: handleArduinoData_def Let_def timers_ok_handleNoteGuess split: option.splits)

lemma timers_ok_Piano_handleArduinoData:
  "timers_ok s \<Longrightarrow> timers_ok (Piano_handleArduinoData pin s)"
  by (simp add: Piano_handleArduinoData_def timers_ok_pressKey split: option.splits)

lemma timers_ok_run_callback:
  assumes "timers_ok s" "\<forall>u \<in> set (timers s). owner (cb u) \<noteq> owner f \<or> owner f = None"
  shows "timers_ok (run_callback f r s)"
proof (cases f)
  case (PlayNextNote h)
  with assms show ?thesis by (simp add: run_callback_def timers_ok_playNextNote)
next
  case (OnComplete h)
  have "timers_ok (selectRandomNote ns r (record_obs e s))" for ns e
    using assms(1) by (simp add: timers_ok_def record_obs_def)
  moreover have "timers_ok (record_obs e s\<lparr>message := m\<rparr>)" for e m
    using assms(1) by (simp add: timers_ok_def record_obs_def)
  ultimately show ?thesis using assms(1) OnComplete
    by (simp add: run_callback_def Let_def split: completion.splits)
next
  case (AfterFeedback r0 c sc)
  with assms show ?thesis by (simp add: run_callback_def timers_ok_afterFeedback)
next
  case InitializeGame
  with assms show ?thesis
    by (simp add: run_callback_def timers_ok_initializeGame timers_ok_pianoCleanup)
next
  case (ReleaseKey n)
  with assms show ?thesis by (simp add: run_callback_def timers_ok_def)
qed

lemma timers_ok_step: "timers_ok s \<Longrightarrow> timers_ok (step e s)"
proof (cases e)
  case (Elapse d)
  assume ok: "timers_ok s"
  show ?thesis
  proof (cases "earliest (timers s)")
    case None
    with ok Elapse show ?thesis by (simp add: step_def earliest_None timers_ok_def)
  next
    case (Some t)
    from earliest_Some [OF Some] ok have "\<forall>u \<in> set (timers s). due t \<le> due u" "now s \<le> due t"
      by (auto simp add: timers_ok_def)
    with ok Elapse Some show ?thesis by (auto simp add: step_def timers_ok_def)
  qed
next
  case (Fire r)
  assume ok: "timers_ok s"
  show ?thesis
  proof (cases "earliest (timers s)")
    case None
    with ok Fire show ?thesis by (simp add: step_def)
  next
    case (Some t)
    from timers_ok_fired [OF ok Some] show ?thesis
      using Fire Some by (simp add: step_def timers_ok_run_callback)
  qed
next
  case (Ended i)
  assume "timers_ok s"
  with Ended show ?thesis by (simp add: step_def timers_ok_def)
next
  case (KeyPress n)
  assume "timers_ok s"
  with KeyPress show ?thesis by (simp add: step_def timers_ok_handleKeyPress)
next
  case (ArduinoData pin)
  assume "timers_ok s"
  with ArduinoData show ?thesis
    by (simp add: step_def Let_def timers_ok_handleArduinoData timers_ok_Piano_handleArduinoData)
next
  case ReplayCurrentNote
  assume "timers_ok s"
  with ReplayCurrentNote show ?thesis by (simp add: step_def timers_ok_def)
next
  case ReplayScale
  assume "timers_ok s"
  with ReplayScale show ?thesis by (simp add: step_def timers_ok_replayScale)
next
  case ExitClick
  assume "timers_ok s"
  with ExitClick show ?thesis by (simp add: step_def timers_ok_def)
next
  case ConfirmExit
  assume "timers_ok s"
  with ConfirmExit show ?thesis by (simp add: step_def timers_ok_confirmExit)
next
  case CancelExit
  assume "timers_ok s"
  with CancelExit show ?thesis by (simp add: step_def timers_ok_def)
qed

lemma timers_ok_init: "timers_ok (init d port)"
  by (simp add: timers_ok_def init_def)

lemma timers_ok_run: "timers_ok s \<Longrightarrow> timers_ok (run es s)"
  by (induction es arbitrary: s) (simp_all add: timers_ok_step)

lemma reachable_timers_ok: "reachable s \<Longrightarrow> timers_ok s"
  by (auto simp add: reachable_def timers_ok_run timers_ok_init)

subsection \<open>The invariant of the players\<close>

lemma timer_on_schedule_no_owner: "owner (cb t) = None \<Longrightarrow> timer_on_schedule qs t"
  by (cases t; cases "cb t") auto

lemma obs_on_schedule_not_about: "(\<And>h. \<not> about h e) \<Longrightarrow> obs_on_schedule qs e"
  by (cases e) auto

lemma player_ok_mono:
  assumes "player_ok s" "seqs s' = seqs s"
    and "\<forall>t \<in> set (timers s'). t \<in> set (timers s) \<or> owner (cb t) = None"
    and "\<forall>e \<in> set (trace s'). e \<in> set (trace s) \<or> (\<forall>h. \<not> about h e)"
    and "set (trace s) \<subseteq> set (trace s')"
  shows "player_ok s'"
  unfolding player_ok_def
proof (intro conjI ballI allI impI)
  fix t assume "t \<in> set (timers s')"
  with assms(1,2,3) show "timer_on_schedule (seqs s') t"
    by (auto simp add: player_ok_def timer_on_schedule_no_owner)
next
  fix e assume "e \<in> set (trace s')"
  with assms(1,2,4) show "obs_on_schedule (seqs s') e"
    by (auto simp add: player_ok_def obs_on_schedule_not_about)
next
  fix h assume "h < length (seqs s')"
  with assms(1,2) show "seq_index (seqs s' ! h) \<le> length (seq_notes (seqs s' ! h))"
    by (simp add: player_ok_def)
next
  fix h i assume "h < length (seqs s')" "i < seq_index (seqs s' ! h)"
  with assms(1,2,5)
  show "NoteTriggered h i (seq_notes (seqs s' ! h) ! i) 0.6 (note_time (seqs s' ! h) i)
          \<in> set (trace s')"
    by (auto simp add: player_ok_def)
qed

lemma player_ok_same:
  "player_ok s \<Longrightarrow> seqs s' = seqs s \<Longrightarrow> timers s' = timers s \<Longrightarrow> trace s' = trace s \<Longrightarrow>
   player_ok s'"
  by (simp add: player_ok_def)

lemma player_ok_filter:
  "player_ok s \<Longrightarrow> seqs s' = seqs s \<Longrightarrow> timers s' = filter P (timers s) \<Longrightarrow>
   trace s' = trace s \<Longrightarrow> player_ok s'"
  by (simp add: player_ok_def)

lemma player_ok_playNote [simp]: "player_ok (playNote n d s) = player_ok s"
  by (simp add: player_ok_def)

text \<open>
  A step of a player keeps the schedule when it runs at the time the schedule gives
  for it and no other timer of the player is pending.
\<close>

lemma player_ok_playNextNote:
  assumes ok: "player_ok s" and h: "h < length (seqs s)"
    and none: "\<forall>u \<in> set (timers s). owner (cb u) \<noteq> Some h"
    and time: "now s = note_time (seqs s ! h) (seq_index (seqs s ! h))"
  shows "player_ok (playNextNote h s)"
proof -
  let ?q = "seqs s ! h"
  have other: "timer_on_schedule ((seqs s)[h := q]) u" if "u \<in> set (timers s)" for u q
  proof -
    from that ok have "timer_on_schedule (seqs s) u" by (simp add: player_ok_def)
    moreover from that none have "owner (cb u) \<noteq> Some h" by simp
    ultimately show ?thesis using h
      by (cases u; cases "cb u") (auto simp add: nth_list_update)
  qed
  from ok h have le: "seq_index ?q \<le> length (seq_notes ?q)" by (simp add: player_ok_def)
  show ?thesis
  proof (cases "seq_index ?q < length (seq_notes ?q)")
    case True
    have obs: "obs_on_schedule
        ((seqs s)[h := ?q\<lparr>seq_index := Suc (seq_index ?q), timeoutId := Some k\<rparr>]) e"
      if "e \<in> set (trace s)" for e k
    proof -
      from that ok have "obs_on_schedule (seqs s) e" by (simp add: player_ok_def)
      moreover from this True have "\<And>t. e \<noteq> Completed h t" by auto
      ultimately show ?thesis using h
        by (cases e) (auto simp add: nth_list_update note_time_def complete_time_def)
    qed
    from True h ok other obs time show ?thesis
      unfolding player_ok_def
      by (auto simp add: playNextNote_effect nth_list_update note_time_def less_Suc_eq)
  next
    case False
    with le have eq: "seq_index ?q = length (seq_notes ?q)" by simp
    have obs: "obs_on_schedule ((seqs s)[h := ?q\<lparr>timeoutId := Some k\<rparr>]) e"
      if "e \<in> set (trace s)" for e k
    proof -
      from that ok have "obs_on_schedule (seqs s) e" by (simp add: player_ok_def)
      then show ?thesis using h
        by (cases e) (auto simp add: nth_list_update note_time_def complete_time_def)
    qed
    from False eq h ok other obs time show ?thesis
      unfolding player_ok_def
      by (auto simp add: playNextNote_effect nth_list_update note_time_def complete_time_def)
  qed
qed

lemma player_ok_new:
  assumes t: "timers_ok s" and ok: "player_ok s" and ne: "ns \<noteq> []"
    and q: "seqs s' = seqs s @
              [\<lparr>seq_notes = ns, seq_index = 1, timeoutId = Some (next_timer s),
                onComplete = f, seq_started = now s\<rparr>]"
    and ts: "timers s' =
               timers s @ [Timer (next_timer s) (now s + 700) (PlayNextNote (length (seqs s)))]"
    and tr: "trace s' = trace s @ [NoteTriggered (length (seqs s)) 0 (ns ! 0) 0.6 (now s)]"
  shows "player_ok s'"
proof -
  have old_t: "timer_on_schedule (seqs s @ [q]) u" if "u \<in> set (timers s)" for u q
  proof -
    from that ok have "timer_on_schedule (seqs s) u" by (simp add: player_ok_def)
    moreover from that t have "\<forall>h. owner (cb u) = Some h \<longrightarrow> h < length (seqs s)"
      by (simp add: timers_ok_def)
    ultimately show ?thesis
      by (cases u; cases "cb u") (auto simp add: nth_append)
  qed
  have old_e: "obs_on_schedule (seqs s @ [q]) e" if "e \<in> set (trace s)" for e q
  proof -
    from that ok have "obs_on_schedule (seqs s) e" by (simp add: player_ok_def)
    then show ?thesis by (cases e) (auto simp add: nth_append)
  qed
  from ne have "Suc 0 \<le> length ns" by (cases ns) simp_all
  with ok old_t old_e show ?thesis
    unfolding player_ok_def q ts tr
    by (auto simp add: nth_append note_time_def less_Suc_eq)
qed

lemma player_ok_initializeGame:
  "timers_ok s \<Longrightarrow> player_ok s \<Longrightarrow> player_ok (initializeGame s)"
  by (rule player_ok_new [where ns = "if difficulty s = ''easy'' then [C, E, G, E, C]
        else [C, D, E, F, G, A, B]"])
     (simp_all add: initializeGame_effect)

lemma player_ok_replayScale:
  assumes "timers_ok s" "player_ok s"
  shows "player_ok (replayScale s)"
proof (cases "status s = Guessing")
  case True
  from assms show ?thesis
    by (rule player_ok_new [where ns = "if difficulty s = ''easy'' then [C, E, G, E, C]
          else [C, D, E, F, G, A, B]"])
       (simp_all add: replayScale_effect [OF True])
next
  case False
  with assms show ?thesis by (simp add: replayScale_def)
qed

lemma player_ok_completed:
  assumes "player_ok s" "h < length (seqs s)"
    and "seq_index (seqs s ! h) = length (seq_notes (seqs s ! h))"
    and "now s = complete_time (seqs s ! h)"
    and "seqs s' = seqs s" "timers s' = timers s" "trace s' = trace s @ [Completed h (now s)]"
  shows "player_ok s'"
  using assms unfolding player_ok_def by auto

lemma player_ok_handleNoteGuess: "player_ok s \<Longrightarrow> player_ok (handleNoteGuess g s)"
proof (cases "status s = Guessing")
  case True
  assume "player_ok s"
  then show ?thesis
    by (rule player_ok_mono) (auto simp add: handleNoteGuess_effect [OF True])
next
  case False
  assume "player_ok s"
  with False show ?thesis by (simp add: handleNoteGuess_ignored)
qed

lemma player_ok_pressKey: "player_ok s \<Longrightarrow> player_ok (pressKey n s)"
  by (erule player_ok_mono) (auto simp add: pressKey_effect)

lemma player_ok_pianoCleanup: "player_ok s \<Longrightarrow> player_ok (pianoCleanup s)"
  by (erule player_ok_filter) (simp_all add: pianoCleanup_timers)

lemma player_ok_endGame:
  assumes "player_ok s" shows "player_ok (endGame fs s)"
proof -
  from removes_endGame obtain P where "timers (endGame fs s) = filter P (timers s)" by blast
  with assms show ?thesis
    by (elim player_ok_mono) (auto simp add: endGame_effect)
qed

lemma player_ok_confirmExit:
  assumes "player_ok s" shows "player_ok (confirmExit s)"
proof -
  from removes_confirmExit obtain P where "timers (confirmExit s) = filter P (timers s)" by blast
  with assms show ?thesis
    by (elim player_ok_mono) (auto simp add: confirmExit_effect)
qed

lemma player_ok_afterFeedback: "player_ok s \<Longrightarrow> player_ok (afterFeedback r c sc s)"
proof (cases "r < totalRounds s")
  case True
  assume "player_ok s"
  then show ?thesis
    by (rule player_ok_mono) (auto simp add: afterFeedback_next [OF True])
next
  case False
  assume "player_ok s"
  with False show ?thesis by (simp add: afterFeedback_last player_ok_endGame)
qed

lemma player_ok_handleKeyPress: "player_ok s \<Longrightarrow> player_ok (handleKeyPress n s)"
  by (simp add: handleKeyPress_def player_ok_pressKey player_ok_handleNoteGuess)

lemma player_ok_handleArduinoData: "player_ok s \<Longrightarrow> player_ok (handleArduinoData pin s)"
  by (simp add: handleArduinoData_def Let_def player_ok_handleNoteGuess split: option.splits)

lemma player_ok_Piano_handleArduinoData:
  "player_ok s \<Longrightarrow> player_ok (Piano_handleArduinoData pin s)"
  by (simp add: Piano_handleArduinoData_def player_ok_pressKey split: option.splits)

lemma player_ok_fired:
  assumes "player_ok s" "earliest (timers s) = Some t"
  shows "player_ok (s\<lparr>now := max (now s) (due t), timers := remove1 t (timers s)\<rparr>)"
    and "timer_on_schedule (seqs s) t"
proof -
  from earliest_Some [OF assms(2)] have t: "t \<in> set (timers s)" by simp
  with assms(1) show "timer_on_schedule (seqs s) t" by (simp add: player_ok_def)
  have "set (remove1 t (timers s)) \<subseteq> set (timers s)" by (rule set_remove1_subset)
  with assms(1) show "player_ok (s\<lparr>now := max (now s) (due t), timers := remove1 t (timers s)\<rparr>)"
    by (elim player_ok_mono) auto
qed

lemma player_ok_run_callback:
  assumes t: "timers_ok s" and ok: "player_ok s"
    and sch: "timer_on_schedule (seqs s) (Timer i (now s) f)"
    and own: "\<forall>h. owner f = Some h \<longrightarrow> h < length (seqs s)"
    and none: "\<forall>u \<in> set (timers s). owner (cb u) \<noteq> owner f \<or> owner f = None"
  shows "player_ok (run_callback f r s)"
proof (cases f)
  case (PlayNextNote h)
  with ok sch own none show ?thesis
    by (simp add: run_callback_def player_ok_playNextNote)
next
  case (OnComplete h)
  with own have h: "h < length (seqs s)" by simp
  from OnComplete sch have c: "seq_index (seqs s ! h) = length (seq_notes (seqs s ! h))"
    "now s = complete_time (seqs s ! h)" by simp_all
  have 1: "player_ok (record_obs (Completed h (now s)) s)"
    by (rule player_ok_completed [OF ok h c]) (simp_all add: record_obs_def)
  then have 2: "player_ok (selectRandomNote ns r (record_obs (Completed h (now s)) s))" for ns
    by (rule player_ok_same) simp_all
  from 1 have 3: "player_ok ((record_obs (Completed h (now s)) s)\<lparr>message := m\<rparr>)" for m
    by (rule player_ok_same) simp_all
  from OnComplete h 2 3 show ?thesis
    by (simp add: run_callback_def Let_def split: completion.splits)
next
  case (AfterFeedback r0 c sc)
  with ok show ?thesis by (simp add: run_callback_def player_ok_afterFeedback)
next
  case InitializeGame
  with ok t show ?thesis
    by (simp add: run_callback_def player_ok_initializeGame player_ok_pianoCleanup)
next
  case (ReleaseKey n)
  from ok have "player_ok (releaseKey n s)" by (rule player_ok_same) simp_all
  with ReleaseKey show ?thesis by (simp add: run_callback_def)
qed

lemma player_ok_step:
  assumes t: "timers_ok s" and ok: "player_ok s"
  shows "player_ok (step e s)"
proof (cases e)
  case (Elapse d)
  have "player_ok (s\<lparr>now := k\<rparr>)" for k using ok by (rule player_ok_same) simp_all
  with Elapse show ?thesis by (simp add: step_def split: option.splits)
next
  case (Fire r)
  show ?thesis
  proof (cases "earliest (timers s)")
    case None
    with ok Fire show ?thesis by (simp add: step_def)
  next
    case (Some u)
    let ?s0 = "s\<lparr>now := max (now s) (due u), timers := remove1 u (timers s)\<rparr>"
    note f = timers_ok_fired [OF t Some]
    note p = player_ok_fired [OF ok Some]
    from earliest_Some [OF Some] have u: "u \<in> set (timers s)" by simp
    from p(2) f(2) have sch: "timer_on_schedule (seqs ?s0) (Timer (tid u) (now ?s0) (cb u))"
      by (cases u) simp
    from t u have own: "\<forall>h. owner (cb u) = Some h \<longrightarrow> h < length (seqs ?s0)"
      by (simp add: timers_ok_def)
    from f(3) have none: "\<forall>v \<in> set (timers ?s0). owner (cb v) \<noteq> owner (cb u) \<or> owner (cb u) = None"
      by simp
    from player_ok_run_callback [OF f(1) p(1) sch own none] Fire Some show ?thesis
      by (simp add: step_def)
  qed
next
  case (Ended i)
  from ok have "player_ok (onended i s)" by (rule player_ok_same) simp_all
  with Ended show ?thesis by (simp add: step_def)
next
  case (KeyPress n)
  with ok show ?thesis by (simp add: step_def player_ok_handleKeyPress)
next
  case (ArduinoData pin)
  with ok show ?thesis
    by (simp add: step_def Let_def player_ok_handleArduinoData player_ok_Piano_handleArduinoData)
next
  case ReplayCurrentNote
  from ok have "player_ok (replayCurrentNote s)" by (rule player_ok_same) simp_all
  with ReplayCurrentNote ok show ?thesis by (simp add: step_def)
next
  case ReplayScale
  with ok t show ?thesis by (simp add: step_def player_ok_replayScale)
next
  case ExitClick
  from ok have "player_ok (handleExitClick s)" by (rule player_ok_same) simp_all
  with ExitClick ok show ?thesis by (simp add: step_def)
next
  case ConfirmExit
  with ok show ?thesis by (simp add: step_def player_ok_confirmExit)
next
  case CancelExit
  from ok have "player_ok (cancelExit s)" by (rule player_ok_same) simp_all
  with CancelExit ok show ?thesis by (simp add: step_def)
qed

lemma player_ok_init: "player_ok (init d port)"
  by (simp add: player_ok_def)

lemma player_ok_run: "timers_ok s \<Longrightarrow> player_ok s \<Longrightarrow> player_ok (run es s)"
  by (induction es arbitrary: s) (simp_all add: timers_ok_step player_ok_step)

lemma reachable_player_ok: "reachable s \<Longrightarrow> player_ok s"
  by (auto simp add: reachable_def player_ok_run timers_ok_init player_ok_init)

subsection \<open>A player without a pending timer stays silent\<close>

lemma leaves_alone_refl: "leaves_alone h s s"
  by (simp add: leaves_alone_def)

lemma leaves_alone_trans:
  "leaves_alone h s s' \<Longrightarrow> leaves_alone h s' s'' \<Longrightarrow> leaves_alone h s s''"
  unfolding leaves_alone_def by (elim conjE, intro conjI) (simp, blast, simp)

lemma leaves_alone_same:
  "seqs s' = seqs s \<Longrightarrow> timers s' = timers s \<Longrightarrow> trace s' = trace s \<Longrightarrow> leaves_alone h s s'"
  by (simp add: leaves_alone_def)

lemma leaves_alone_filter:
  "seqs s' = seqs s \<Longrightarrow> timers s' = filter P (timers s) \<Longrightarrow> trace s' = trace s \<Longrightarrow>
   leaves_alone h s s'"
  by (simp add: leaves_alone_def)

lemma leaves_alone_playNextNote: "h' \<noteq> h \<Longrightarrow> leaves_alone h s (playNextNote h' s)"
  by (simp add: leaves_alone_def playNextNote_effect)

lemma leaves_alone_initializeGame:
  "h < length (seqs s) \<Longrightarrow> leaves_alone h s (initializeGame s)"
  by (simp add: leaves_alone_def initializeGame_effect)

lemma leaves_alone_replayScale: "h < length (seqs s) \<Longrightarrow> leaves_alone h s (replayScale s)"
proof (cases "status s = Guessing")
  case True
  assume "h < length (seqs s)"
  then show ?thesis by (simp add: leaves_alone_def replayScale_effect [OF True])
next
  case False
  then show ?thesis by (simp add: replayScale_def leaves_alone_refl)
qed

lemma leaves_alone_handleNoteGuess: "leaves_alone h s (handleNoteGuess g s)"
proof (cases "status s = Guessing")
  case True
  then show ?thesis by (simp add: leaves_alone_def handleNoteGuess_effect [OF True])
next
  case False
  then show ?thesis by (simp add: handleNoteGuess_ignored leaves_alone_refl)
qed

lemma leaves_alone_pressKey: "leaves_alone h s (pressKey n s)"
  by (auto simp add: leaves_alone_def pressKey_effect)

lemma leaves_alone_pianoCleanup: "leaves_alone h s (pianoCleanup s)"
  by (rule leaves_alone_filter) (simp_all add: pianoCleanup_timers)

lemma leaves_alone_endGame: "leaves_alone h s (endGame fs s)"
proof -
  from removes_endGame obtain P where "timers (endGame fs s) = filter P (timers s)" by blast
  then show ?thesis by (simp add: leaves_alone_def endGame_effect)
qed

lemma leaves_alone_confirmExit: "leaves_alone h s (confirmExit s)"
proof -
  from removes_confirmExit obtain P where "timers (confirmExit s) = filter P (timers s)" by blast
  then show ?thesis by (simp add: leaves_alone_def confirmExit_effect)
qed

lemma leaves_alone_afterFeedback: "leaves_alone h s (afterFeedback r c sc s)"
proof (cases "r < totalRounds s")
  case True
  then show ?thesis by (simp add: leaves_alone_def afterFeedback_next [OF True])
next
  case False
  then show ?thesis by (simp add: afterFeedback_last leaves_alone_endGame)
qed

lemma leaves_alone_handleKeyPress: "leaves_alone h s (handleKeyPress n s)"
proof (cases "disabled s \<or> n \<notin> set (availableNotes s)")
  case True
  then show ?thesis by (auto simp add: handleKeyPress_def leaves_alone_refl)
next
  case False
  have "leaves_alone h (pressKey n s) (playNote n 0.3 (pressKey n s))"
    by (rule leaves_alone_same) simp_all
  from leaves_alone_trans [OF leaves_alone_trans [OF leaves_alone_pressKey this]
      leaves_alone_handleNoteGuess] False
  show ?thesis by (simp add: handleKeyPress_def)
qed

lemma leaves_alone_handleArduinoData: "leaves_alone h s (handleArduinoData pin s)"
proof (cases "pinToNote pin")
  case None
  then show ?thesis by (simp add: handleArduinoData_def leaves_alone_refl)
next
  case (Some n)
  have 1: "leaves_alone h s (playNote n 0.3 s)" by (rule leaves_alone_same) simp_all
  from leaves_alone_trans [OF 1 leaves_alone_handleNoteGuess] 1 Some show ?thesis
    by (simp add: handleArduinoData_def Let_def)
qed

lemma leaves_alone_Piano_handleArduinoData: "leaves_alone h s (Piano_handleArduinoData pin s)"
  by (simp add: Piano_handleArduinoData_def leaves_alone_refl leaves_alone_pressKey
        split: option.splits)

lemma leaves_alone_run_callback:
  assumes "h < length (seqs s)" "owner f \<noteq> Some h"
  shows "leaves_alone h s (run_callback f r s)"
proof (cases f)
  case (PlayNextNote h')
  with assms show ?thesis by (simp add: run_callback_def leaves_alone_playNextNote)
next
  case (OnComplete h')
  with assms have "h' \<noteq> h" by simp
  then have "leaves_alone h s (selectRandomNote ns r (record_obs (Completed h' (now s)) s))" for ns
    by (simp add: leaves_alone_def record_obs_def)
  moreover from \<open>h' \<noteq> h\<close>
  have "leaves_alone h s ((record_obs (Completed h' (now s)) s)\<lparr>message := m\<rparr>)" for m
    by (simp add: leaves_alone_def record_obs_def)
  ultimately show ?thesis using OnComplete
    by (simp add: run_callback_def Let_def leaves_alone_refl split: completion.splits)
next
  case (AfterFeedback r0 c sc)
  then show ?thesis by (simp add: run_callback_def leaves_alone_afterFeedback)
next
  case InitializeGame
  from leaves_alone_trans [OF leaves_alone_initializeGame [OF assms(1)] leaves_alone_pianoCleanup]
  show ?thesis using InitializeGame by (simp add: run_callback_def)
next
  case (ReleaseKey n)
  have "leaves_alone h s (releaseKey n s)" by (rule leaves_alone_same) simp_all
  with ReleaseKey show ?thesis by (simp add: run_callback_def)
qed

lemma leaves_alone_step:
  assumes h: "h < length (seqs s)" and q: "pending h s = []"
  shows "leaves_alone h s (step e s)"
proof (cases e)
  case (Elapse d)
  have "leaves_alone h s (s\<lparr>now := k\<rparr>)" for k by (rule leaves_alone_same) simp_all
  with Elapse show ?thesis by (simp add: step_def split: option.splits)
next
  case (Fire r)
  show ?thesis
  proof (cases "earliest (timers s)")
    case None
    with Fire show ?thesis by (simp add: step_def leaves_alone_refl)
  next
    case (Some u)
    let ?s0 = "s\<lparr>now := max (now s) (due u), timers := remove1 u (timers s)\<rparr>"
    from earliest_Some [OF Some] have u: "u \<in> set (timers s)" by simp
    with q have o: "owner (cb u) \<noteq> Some h" by (auto simp add: pending_def filter_empty_conv)
    have "set (remove1 u (timers s)) \<subseteq> set (timers s)" by (rule set_remove1_subset)
    then have 1: "leaves_alone h s ?s0" by (auto simp add: leaves_alone_def)
    from h have "h < length (seqs ?s0)" by simp
    from leaves_alone_trans [OF 1 leaves_alone_run_callback [OF this o]] Fire Some
    show ?thesis by (simp add: step_def)
  qed
next
  case (Ended i)
  have "leaves_alone h s (onended i s)" by (rule leaves_alone_same) simp_all
  with Ended show ?thesis by (simp add: step_def)
next
  case (KeyPress n)
  then show ?thesis by (simp add: step_def leaves_alone_handleKeyPress leaves_alone_refl)
next
  case (ArduinoData pin)
  from leaves_alone_trans [OF leaves_alone_Piano_handleArduinoData leaves_alone_handleArduinoData]
    ArduinoData
  show ?thesis
    by (simp add: step_def Let_def leaves_alone_refl leaves_alone_Piano_handleArduinoData)
next
  case ReplayCurrentNote
  have "leaves_alone h s (replayCurrentNote s)" by (rule leaves_alone_same) simp_all
  with ReplayCurrentNote show ?thesis by (simp add: step_def leaves_alone_refl)
next
  case ReplayScale
  with h show ?thesis by (simp add: step_def leaves_alone_replayScale leaves_alone_refl)
next
  case ExitClick
  have "leaves_alone h s (handleExitClick s)" by (rule leaves_alone_same) simp_all
  with ExitClick show ?thesis by (simp add: step_def leaves_alone_refl)
next
  case ConfirmExit
  then show ?thesis by (simp add: step_def leaves_alone_confirmExit leaves_alone_refl)
next
  case CancelExit
  have "leaves_alone h s (cancelExit s)" by (rule leaves_alone_same) simp_all
  with CancelExit show ?thesis by (simp add: step_def leaves_alone_refl)
qed

lemma leaves_alone_quiet:
  assumes "leaves_alone h s s'" "h < length (seqs s)" "pending h s = []"
  shows "h < length (seqs s')" "pending h s' = []"
  using assms by (auto simp add: leaves_alone_def pending_def filter_empty_conv)

lemma quiet_run:
  "h < length (seqs s) \<Longrightarrow> pending h s = [] \<Longrightarrow>
     h < length (seqs (run es s)) \<and> pending h (run es s) = [] \<and>
     filter (about h) (trace (run es s)) = filter (about h) (trace s)"
proof (induction es arbitrary: s)
  case Nil
  then show ?case by simp
next
  case (Cons e es)
  note 1 = leaves_alone_step [OF Cons.prems, of e]
  note 2 = leaves_alone_quiet [OF 1 Cons.prems]
  from Cons.IH [OF 2] 1 show ?case by (simp add: leaves_alone_def)
qed

lemma cleanup_quiet:
  assumes "timers_ok s" "h < length (seqs s)"
  shows "pending h (cleanup h s) = []"
  using assms
  by (auto simp add: pending_def filter_empty_conv cleanup_timers timers_ok_def
        split: option.splits)

subsection \<open>The first round of an easy game, step by step\<close>

lemmas run_simps =
  step_def
  run_callback_def
  mounted_def
  record_obs_def
  allNotes_def
  getAvailableNotes_def
  initializeGame_effect
  playNextNote_effect
  selectRandomNote_effect
  pianoCleanup_timers

lemma awaiting_guess_fields:
  "now awaiting_guess = 6100" "timers awaiting_guess = []" "next_timer awaiting_guess = 8"
  "seqs awaiting_guess = [\<lparr>seq_notes = [C, E, G, E, C], seq_index = 5, timeoutId = Some 7, onComplete = SelectRandomNote [C, E, G], seq_started = 2000\<rparr>]"
  "trace awaiting_guess = [NoteTriggered 0 0 C 0.6 2000, NoteTriggered 0 1 E 0.6 2700, NoteTriggered 0 2 G 0.6 3400, NoteTriggered 0 3 E 0.6 4100, NoteTriggered 0 4 C 0.6 4800, Completed 0 6100]"
  "status awaiting_guess = Guessing" "round awaiting_guess = 1" "score awaiting_guess = 0"
  "currentNote awaiting_guess = Some E" "gameState awaiting_guess = GS_playing"
  "difficulty awaiting_guess = ''easy''" "arduinoPort awaiting_guess = False"
  "availableNotes awaiting_guess = [C, E, G]" "showExitConfirm awaiting_guess = False"
  "audioContext awaiting_guess = Some 2000" "audioCleanupRef awaiting_guess = Some 0"
  "mountTimer awaiting_guess = 1" "pressTimeoutRef awaiting_guess = (\<lambda>n. None)"
proof -
  define s1 where "s1 = step (Fire 0) (init ''easy'' False)"
  define s2 where "s2 = step (Fire 0) s1"
  define s3 where "s3 = step (Fire 0) s2"
  define s4 where "s4 = step (Fire 0) s3"
  define s5 where "s5 = step (Fire 0) s4"
  define s6 where "s6 = step (Fire 0) s5"
  define s7 where "s7 = step (Fire 0.5) s6"
  have f1:
    "now s1 = 2000" "timers s1 = [Timer 2 2700 (PlayNextNote 0)]" "next_timer s1 = 3"
    "seqs s1 = [\<lparr>seq_notes = [C, E, G, E, C], seq_index = 1, timeoutId = Some 2, onComplete = SelectRandomNote [C, E, G], seq_started = 2000\<rparr>]"
    "trace s1 = [NoteTriggered 0 0 C 0.6 2000]" "status s1 = Playing" "round s1 = 1"
    "score s1 = 0" "currentNote s1 = None" "gameState s1 = GS_playing" "difficulty s1 = ''easy''"
    "arduinoPort s1 = False" "availableNotes s1 = [C, E, G]" "showExitConfirm s1 = False"
    "audioContext s1 = Some 2000" "audioCleanupRef s1 = Some 0" "mountTimer s1 = 1"
    "pressTimeoutRef s1 = (\<lambda>n. None)"
    unfolding s1_def by (simp_all add:  run_simps)
  have f2:
    "now s2 = 2700" "timers s2 = [Timer 3 3400 (PlayNextNote 0)]" "next_timer s2 = 4"
    "seqs s2 = [\<lparr>seq_notes = [C, E, G, E, C], seq_index = 2, timeoutId = Some 3, onComplete = SelectRandomNote [C, E, G], seq_started = 2000\<rparr>]"
    "trace s2 = [NoteTriggered 0 0 C 0.6 2000, NoteTriggered 0 1 E 0.6 2700]"
    "status s2 = Playing" "round s2 = 1" "score s2 = 0" "currentNote s2 = None"
    "gameState s2 = GS_playing" "difficulty s2 = ''easy''" "arduinoPort s2 = False"
    "availableNotes s2 = [C, E, G]" "showExitConfirm s2 = False" "audioContext s2 = Some 2000"
    "audioCleanupRef s2 = Some 0" "mountTimer s2 = 1" "pressTimeoutRef s2 = (\<lambda>n. None)"
    unfolding s2_def by (simp_all add: f1 run_simps)
  have f3:
    "now s3 = 3400" "timers s3 = [Timer 4 4100 (PlayNextNote 0)]" "next_timer s3 = 5"
    "seqs s3 = [\<lparr>seq_notes = [C, E, G, E, C], seq_index = 3, timeoutId = Some 4, onComplete = SelectRandomNote [C, E, G], seq_started = 2000\<rparr>]"
    "trace s3 = [NoteTriggered 0 0 C 0.6 2000, NoteTriggered 0 1 E 0.6 2700, NoteTriggered 0 2 G 0.6 3400]"
    "status s3 = Playing" "round s3 = 1" "score s3 = 0" "currentNote s3 = None"
    "gameState s3 = GS_playing" "difficulty s3 = ''easy''" "arduinoPort s3 = False"
    "availableNotes s3 = [C, E, G]" "showExitConfirm s3 = False" "audioContext s3 = Some 2000"
    "audioCleanupRef s3 = Some 0" "mountTimer s3 = 1" "pressTimeoutRef s3 = (\<lambda>n. None)"
    unfolding s3_def by (simp_all add: f2 run_simps)
  have f4:
    "now s4 = 4100" "timers s4 = [Timer 5 4800 (PlayNextNote 0)]" "next_timer s4 = 6"
    "seqs s4 = [\<lparr>seq_notes = [C, E, G, E, C], seq_index = 4, timeoutId = Some 5, onComplete = SelectRandomNote [C, E, G], seq_started = 2000\<rparr>]"
    "trace s4 = [NoteTriggered 0 0 C 0.6 2000, NoteTriggered 0 1 E 0.6 2700, NoteTriggered 0 2 G 0.6 3400, NoteTriggered 0 3 E 0.6 4100]"
    "status s4 = Playing" "round s4 = 1" "score s4 = 0" "currentNote s4 = None"
    "gameState s4 = GS_playing" "difficulty s4 = ''easy''" "arduinoPort s4 = False"
    "availableNotes s4 = [C, E, G]" "showExitConfirm s4 = False" "audioContext s4 = Some 2000"
    "audioCleanupRef s4 = Some 0" "mountTimer s4 = 1" "pressTimeoutRef s4 = (\<lambda>n. None)"
    unfolding s4_def by (simp_all add: f3 run_simps)
  have f5:
    "now s5 = 4800" "timers s5 = [Timer 6 5500 (PlayNextNote 0)]" "next_timer s5 = 7"
    "seqs s5 = [\<lparr>seq_notes = [C, E, G, E, C], seq_index = 5, timeoutId = Some 6, onComplete = SelectRandomNote [C, E, G], seq_started = 2000\<rparr>]"
    "trace s5 = [NoteTriggered 0 0 C 0.6 2000, NoteTriggered 0 1 E 0.6 2700, NoteTriggered 0 2 G 0.6 3400, NoteTriggered 0 3 E 0.6 4100, NoteTriggered 0 4 C 0.6 4800]"
    "status s5 = Playing" "round s5 = 1" "score s5 = 0" "currentNote s5 = None"
    "gameState s5 = GS_playing" "difficulty s5 = ''easy''" "arduinoPort s5 = False"
    "availableNotes s5 = [C, E, G]" "showExitConfirm s5 = False" "audioContext s5 = Some 2000"
    "audioCleanupRef s5 = Some 0" "mountTimer s5 = 1" "pressTimeoutRef s5 = (\<lambda>n. None)"
    unfolding s5_def by (simp_all add: f4 run_simps)
  have f6:
    "now s6 = 5500" "timers s6 = [Timer 7 6100 (OnComplete 0)]" "next_timer s6 = 8"
    "seqs s6 = [\<lparr>seq_notes = [C, E, G, E, C], seq_index = 5, timeoutId = Some 7, onComplete = SelectRandomNote [C, E, G], seq_started = 2000\<rparr>]"
    "trace s6 = [NoteTriggered 0 0 C 0.6 2000, NoteTriggered 0 1 E 0.6 2700, NoteTriggered 0 2 G 0.6 3400, NoteTriggered 0 3 E 0.6 4100, NoteTriggered 0 4 C 0.6 4800]"
    "status s6 = Playing" "round s6 = 1" "score s6 = 0" "currentNote s6 = None"
    "gameState s6 = GS_playing" "difficulty s6 = ''easy''" "arduinoPort s6 = False"
    "availableNotes s6 = [C, E, G]" "showExitConfirm s6 = False" "audioContext s6 = Some 2000"
    "audioCleanupRef s6 = Some 0" "mountTimer s6 = 1" "pressTimeoutRef s6 = (\<lambda>n. None)"
    unfolding s6_def by (simp_all add: f5 run_simps)
  have f7:
    "now s7 = 6100" "timers s7 = []" "next_timer s7 = 8"
    "seqs s7 = [\<lparr>seq_notes = [C, E, G, E, C], seq_index = 5, timeoutId = Some 7, onComplete = SelectRandomNote [C, E, G], seq_started = 2000\<rparr>]"
    "trace s7 = [NoteTriggered 0 0 C 0.6 2000, NoteTriggered 0 1 E 0.6 2700, NoteTriggered 0 2 G 0.6 3400, NoteTriggered 0 3 E 0.6 4100, NoteTriggered 0 4 C 0.6 4800, Completed 0 6100]"
    "status s7 = Guessing" "round s7 = 1" "score s7 = 0" "currentNote s7 = Some E"
    "gameState s7 = GS_playing" "difficulty s7 = ''easy''" "arduinoPort s7 = False"
    "availableNotes s7 = [C, E, G]" "showExitConfirm s7 = False" "audioContext s7 = Some 2000"
    "audioCleanupRef s7 = Some 0" "mountTimer s7 = 1" "pressTimeoutRef s7 = (\<lambda>n. None)"
    unfolding s7_def by (simp_all add: f6 run_simps)
  have "awaiting_guess = s7"
    by (simp add: awaiting_guess_def s1_def s2_def s3_def s4_def s5_def s6_def s7_def)
  with f7 show
    "now awaiting_guess = 6100" "timers awaiting_guess = []" "next_timer awaiting_guess = 8"
    "seqs awaiting_guess = [\<lparr>seq_notes = [C, E, G, E, C], seq_index = 5, timeoutId = Some 7, onComplete = SelectRandomNote [C, E, G], seq_started = 2000\<rparr>]"
    "trace awaiting_guess = [NoteTriggered 0 0 C 0.6 2000, NoteTriggered 0 1 E 0.6 2700, NoteTriggered 0 2 G 0.6 3400, NoteTriggered 0 3 E 0.6 4100, NoteTriggered 0 4 C 0.6 4800, Completed 0 6100]"
    "status awaiting_guess = Guessing" "round awaiting_guess = 1" "score awaiting_guess = 0"
    "currentNote awaiting_guess = Some E" "gameState awaiting_guess = GS_playing"
    "difficulty awaiting_guess = ''easy''" "arduinoPort awaiting_guess = False"
    "availableNotes awaiting_guess = [C, E, G]" "showExitConfirm awaiting_guess = False"
    "audioContext awaiting_guess = Some 2000" "audioCleanupRef awaiting_guess = Some 0"
    "mountTimer awaiting_guess = 1" "pressTimeoutRef awaiting_guess = (\<lambda>n. None)"
    by simp_all
qed

subsection \<open>Two replays of the passage, and the exit\<close>

lemma two_replays_fields:
  "now two_replays = 6200"
  "timers two_replays = [Timer 8 6800 (PlayNextNote 1), Timer 9 6900 (PlayNextNote 2)]"
  "next_timer two_replays = 10"
  "seqs two_replays = [\<lparr>seq_notes = [C, E, G, E, C], seq_index = 5, timeoutId = Some 7, onComplete = SelectRandomNote [C, E, G], seq_started = 2000\<rparr>, \<lparr>seq_notes = [C, E, G, E, C], seq_index = 1, timeoutId = Some 8, onComplete = AskWhichNote, seq_started = 6100\<rparr>, \<lparr>seq_notes = [C, E, G, E, C], seq_index = 1, timeoutId = Some 9, onComplete = AskWhichNote, seq_started = 6200\<rparr>]"
  "trace two_replays = [NoteTriggered 0 0 C 0.6 2000, NoteTriggered 0 1 E 0.6 2700, NoteTriggered 0 2 G 0.6 3400, NoteTriggered 0 3 E 0.6 4100, NoteTriggered 0 4 C 0.6 4800, Completed 0 6100, NoteTriggered 1 0 C 0.6 6100, NoteTriggered 2 0 C 0.6 6200]"
  "status two_replays = Guessing" "round two_replays = 1" "score two_replays = 0"
  "currentNote two_replays = Some E" "gameState two_replays = GS_playing"
  "difficulty two_replays = ''easy''" "arduinoPort two_replays = False"
  "availableNotes two_replays = [C, E, G]" "showExitConfirm two_replays = False"
  "audioContext two_replays = Some 2000" "audioCleanupRef two_replays = Some 2"
  "mountTimer two_replays = 1" "pressTimeoutRef two_replays = (\<lambda>n. None)"
proof -
  define r1 where "r1 = step (ReplayScale) awaiting_guess"
  define r2 where "r2 = step (Elapse 100) r1"
  define r3 where "r3 = step (ReplayScale) r2"
  have f1:
    "now r1 = 6100" "timers r1 = [Timer 8 6800 (PlayNextNote 1)]" "next_timer r1 = 9"
    "seqs r1 = [\<lparr>seq_notes = [C, E, G, E, C], seq_index = 5, timeoutId = Some 7, onComplete = SelectRandomNote [C, E, G], seq_started = 2000\<rparr>, \<lparr>seq_notes = [C, E, G, E, C], seq_index = 1, timeoutId = Some 8, onComplete = AskWhichNote, seq_started = 6100\<rparr>]"
    "trace r1 = [NoteTriggered 0 0 C 0.6 2000, NoteTriggered 0 1 E 0.6 2700, NoteTriggered 0 2 G 0.6 3400, NoteTriggered 0 3 E 0.6 4100, NoteTriggered 0 4 C 0.6 4800, Completed 0 6100, NoteTriggered 1 0 C 0.6 6100]"
    "status r1 = Guessing" "round r1 = 1" "score r1 = 0" "currentNote r1 = Some E"
    "gameState r1 = GS_playing" "difficulty r1 = ''easy''" "arduinoPort r1 = False"
    "availableNotes r1 = [C, E, G]" "showExitConfirm r1 = False" "audioContext r1 = Some 2000"
    "audioCleanupRef r1 = Some 1" "mountTimer r1 = 1" "pressTimeoutRef r1 = (\<lambda>n. None)"
    unfolding r1_def by (simp_all add: awaiting_guess_fields run_simps replayScale_effect)
  have f2:
    "now r2 = 6200" "timers r2 = [Timer 8 6800 (PlayNextNote 1)]" "next_timer r2 = 9"
    "seqs r2 = [\<lparr>seq_notes = [C, E, G, E, C], seq_index = 5, timeoutId = Some 7, onComplete = SelectRandomNote [C, E, G], seq_started = 2000\<rparr>, \<lparr>seq_notes = [C, E, G, E, C], seq_index = 1, timeoutId = Some 8, onComplete = AskWhichNote, seq_started = 6100\<rparr>]"
    "trace r2 = [NoteTriggered 0 0 C 0.6 2000, NoteTriggered 0 1 E 0.6 2700, NoteTriggered 0 2 G 0.6 3400, NoteTriggered 0 3 E 0.6 4100, NoteTriggered 0 4 C 0.6 4800, Completed 0 6100, NoteTriggered 1 0 C 0.6 6100]"
    "status r2 = Guessing" "round r2 = 1" "score r2 = 0" "currentNote r2 = Some E"
    "gameState r2 = GS_playing" "difficulty r2 = ''easy''" "arduinoPort r2 = False"
    "availableNotes r2 = [C, E, G]" "showExitConfirm r2 = False" "audioContext r2 = Some 2000"
    "audioCleanupRef r2 = Some 1" "mountTimer r2 = 1" "pressTimeoutRef r2 = (\<lambda>n. None)"
    unfolding r2_def by (simp_all add: f1 run_simps replayScale_effect)
  have f3:
    "now r3 = 6200" "timers r3 = [Timer 8 6800 (PlayNextNote 1), Timer 9 6900 (PlayNextNote 2)]"
    "next_timer r3 = 10"
    "seqs r3 = [\<lparr>seq_notes = [C, E, G, E, C], seq_index = 5, timeoutId = Some 7, onComplete = SelectRandomNote [C, E, G], seq_started = 2000\<rparr>, \<lparr>seq_notes = [C, E, G, E, C], seq_index = 1, timeoutId = Some 8, onComplete = AskWhichNote, seq_started = 6100\<rparr>, \<lparr>seq_notes = [C, E, G, E, C], seq_index = 1, timeoutId = Some 9, onComplete = AskWhichNote, seq_started = 6200\<rparr>]"
    "trace r3 = [NoteTriggered 0 0 C 0.6 2000, NoteTriggered 0 1 E 0.6 2700, NoteTriggered 0 2 G 0.6 3400, NoteTriggered 0 3 E 0.6 4100, NoteTriggered 0 4 C 0.6 4800, Completed 0 6100, NoteTriggered 1 0 C 0.6 6100, NoteTriggered 2 0 C 0.6 6200]"
    "status r3 = Guessing" "round r3 = 1" "score r3 = 0" "currentNote r3 = Some E"
    "gameState r3 = GS_playing" "difficulty r3 = ''easy''" "arduinoPort r3 = False"
    "availableNotes r3 = [C, E, G]" "showExitConfirm r3 = False" "audioContext r3 = Some 2000"
    "audioCleanupRef r3 = Some 2" "mountTimer r3 = 1" "pressTimeoutRef r3 = (\<lambda>n. None)"
    unfolding r3_def by (simp_all add: f2 run_simps replayScale_effect)
  have "two_replays = r3"
    by (simp add: two_replays_def r1_def r2_def r3_def)
  with f3 show
    "now two_replays = 6200"
    "timers two_replays = [Timer 8 6800 (PlayNextNote 1), Timer 9 6900 (PlayNextNote 2)]"
    "next_timer two_replays = 10"
    "seqs two_replays = [\<lparr>seq_notes = [C, E, G, E, C], seq_index = 5, timeoutId = Some 7, onComplete = SelectRandomNote [C, E, G], seq_started = 2000\<rparr>, \<lparr>seq_notes = [C, E, G, E, C], seq_index = 1, timeoutId = Some 8, onComplete = AskWhichNote, seq_started = 6100\<rparr>, \<lparr>seq_notes = [C, E, G, E, C], seq_index = 1, timeoutId = Some 9, onComplete = AskWhichNote, seq_started = 6200\<rparr>]"
    "trace two_replays = [NoteTriggered 0 0 C 0.6 2000, NoteTriggered 0 1 E 0.6 2700, NoteTriggered 0 2 G 0.6 3400, NoteTriggered 0 3 E 0.6 4100, NoteTriggered 0 4 C 0.6 4800, Completed 0 6100, NoteTriggered 1 0 C 0.6 6100, NoteTriggered 2 0 C 0.6 6200]"
    "status two_replays = Guessing" "round two_replays = 1" "score two_replays = 0"
    "currentNote two_replays = Some E" "gameState two_replays = GS_playing"
    "difficulty two_replays = ''easy''" "arduinoPort two_replays = False"
    "availableNotes two_replays = [C, E, G]" "showExitConfirm two_replays = False"
    "audioContext two_replays = Some 2000" "audioCleanupRef two_replays = Some 2"
    "mountTimer two_replays = 1" "pressTimeoutRef two_replays = (\<lambda>n. None)"
    by simp_all
qed

lemma after_exit_fields:
  "now after_exit = 6200" "timers after_exit = [Timer 8 6800 (PlayNextNote 1)]"
  "next_timer after_exit = 10"
  "seqs after_exit = [\<lparr>seq_notes = [C, E, G, E, C], seq_index = 5, timeoutId = Some 7, onComplete = SelectRandomNote [C, E, G], seq_started = 2000\<rparr>, \<lparr>seq_notes = [C, E, G, E, C], seq_index = 1, timeoutId = Some 8, onComplete = AskWhichNote, seq_started = 6100\<rparr>, \<lparr>seq_notes = [C, E, G, E, C], seq_index = 1, timeoutId = Some 9, onComplete = AskWhichNote, seq_started = 6200\<rparr>]"
  "trace after_exit = [NoteTriggered 0 0 C 0.6 2000, NoteTriggered 0 1 E 0.6 2700, NoteTriggered 0 2 G 0.6 3400, NoteTriggered 0 3 E 0.6 4100, NoteTriggered 0 4 C 0.6 4800, Completed 0 6100, NoteTriggered 1 0 C 0.6 6100, NoteTriggered 2 0 C 0.6 6200, ExitGameCalled 6200]"
  "status after_exit = Guessing" "round after_exit = 1" "score after_exit = 0"
  "currentNote after_exit = Some E" "gameState after_exit = GS_welcome"
  "difficulty after_exit = ''easy''" "arduinoPort after_exit = False"
  "availableNotes after_exit = [C, E, G]" "showExitConfirm after_exit = True"
  "audioContext after_exit = Some 2000" "audioCleanupRef after_exit = Some 2"
  "mountTimer after_exit = 1" "pressTimeoutRef after_exit = (\<lambda>n. None)"
proof -
  define x1 where "x1 = step (ExitClick) two_replays"
  define x2 where "x2 = step (ConfirmExit) x1"
  have f1:
    "now x1 = 6200" "timers x1 = [Timer 8 6800 (PlayNextNote 1), Timer 9 6900 (PlayNextNote 2)]"
    "next_timer x1 = 10"
    "seqs x1 = [\<lparr>seq_notes = [C, E, G, E, C], seq_index = 5, timeoutId = Some 7, onComplete = SelectRandomNote [C, E, G], seq_started = 2000\<rparr>, \<lparr>seq_notes = [C, E, G, E, C], seq_index = 1, timeoutId = Some 8, onComplete = AskWhichNote, seq_started = 6100\<rparr>, \<lparr>seq_notes = [C, E, G, E, C], seq_index = 1, timeoutId = Some 9, onComplete = AskWhichNote, seq_started = 6200\<rparr>]"
    "trace x1 = [NoteTriggered 0 0 C 0.6 2000, NoteTriggered 0 1 E 0.6 2700, NoteTriggered 0 2 G 0.6 3400, NoteTriggered 0 3 E 0.6 4100, NoteTriggered 0 4 C 0.6 4800, Completed 0 6100, NoteTriggered 1 0 C 0.6 6100, NoteTriggered 2 0 C 0.6 6200]"
    "status x1 = Guessing" "round x1 = 1" "score x1 = 0" "currentNote x1 = Some E"
    "gameState x1 = GS_playing" "difficulty x1 = ''easy''" "arduinoPort x1 = False"
    "availableNotes x1 = [C, E, G]" "showExitConfirm x1 = True" "audioContext x1 = Some 2000"
    "audioCleanupRef x1 = Some 2" "mountTimer x1 = 1" "pressTimeoutRef x1 = (\<lambda>n. None)"
    unfolding x1_def by (simp_all add: two_replays_fields run_simps handleExitClick_def confirmExit_effect unmount_timers callAudioCleanup_timers)
  have f2:
    "now x2 = 6200" "timers x2 = [Timer 8 6800 (PlayNextNote 1)]" "next_timer x2 = 10"
    "seqs x2 = [\<lparr>seq_notes = [C, E, G, E, C], seq_index = 5, timeoutId = Some 7, onComplete = SelectRandomNote [C, E, G], seq_started = 2000\<rparr>, \<lparr>seq_notes = [C, E, G, E, C], seq_index = 1, timeoutId = Some 8, onComplete = AskWhichNote, seq_started = 6100\<rparr>, \<lparr>seq_notes = [C, E, G, E, C], seq_index = 1, timeoutId = Some 9, onComplete = AskWhichNote, seq_started = 6200\<rparr>]"
    "trace x2 = [NoteTriggered 0 0 C 0.6 2000, NoteTriggered 0 1 E 0.6 2700, NoteTriggered 0 2 G 0.6 3400, NoteTriggered 0 3 E 0.6 4100, NoteTriggered 0 4 C 0.6 4800, Completed 0 6100, NoteTriggered 1 0 C 0.6 6100, NoteTriggered 2 0 C 0.6 6200, ExitGameCalled 6200]"
    "status x2 = Guessing" "round x2 = 1" "score x2 = 0" "currentNote x2 = Some E"
    "gameState x2 = GS_welcome" "difficulty x2 = ''easy''" "arduinoPort x2 = False"
    "availableNotes x2 = [C, E, G]" "showExitConfirm x2 = True" "audioContext x2 = Some 2000"
    "audioCleanupRef x2 = Some 2" "mountTimer x2 = 1" "pressTimeoutRef x2 = (\<lambda>n. None)"
    unfolding x2_def by (simp_all add: f1 run_simps handleExitClick_def confirmExit_effect unmount_timers callAudioCleanup_timers)
  have "after_exit = x2"
    by (simp add: after_exit_def x1_def x2_def)
  with f2 show
    "now after_exit = 6200" "timers after_exit = [Timer 8 6800 (PlayNextNote 1)]"
    "next_timer after_exit = 10"
    "seqs after_exit = [\<lparr>seq_notes = [C, E, G, E, C], seq_index = 5, timeoutId = Some 7, onComplete = SelectRandomNote [C, E, G], seq_started = 2000\<rparr>, \<lparr>seq_notes = [C, E, G, E, C], seq_index = 1, timeoutId = Some 8, onComplete = AskWhichNote, seq_started = 6100\<rparr>, \<lparr>seq_notes = [C, E, G, E, C], seq_index = 1, timeoutId = Some 9, onComplete = AskWhichNote, seq_started = 6200\<rparr>]"
    "trace after_exit = [NoteTriggered 0 0 C 0.6 2000, NoteTriggered 0 1 E 0.6 2700, NoteTriggered 0 2 G 0.6 3400, NoteTriggered 0 3 E 0.6 4100, NoteTriggered 0 4 C 0.6 4800, Completed 0 6100, NoteTriggered 1 0 C 0.6 6100, NoteTriggered 2 0 C 0.6 6200, ExitGameCalled 6200]"
    "status after_exit = Guessing" "round after_exit = 1" "score after_exit = 0"
    "currentNote after_exit = Some E" "gameState after_exit = GS_welcome"
    "difficulty after_exit = ''easy''" "arduinoPort after_exit = False"
    "availableNotes after_exit = [C, E, G]" "showExitConfirm after_exit = True"
    "audioContext after_exit = Some 2000" "audioCleanupRef after_exit = Some 2"
    "mountTimer after_exit = 1" "pressTimeoutRef after_exit = (\<lambda>n. None)"
    by simp_all
qed

lemma after_exit_fire_fields:
  "now (step (Fire 0) after_exit) = 6800"
  "timers (step (Fire 0) after_exit) = [Timer 10 7500 (PlayNextNote 1)]"
  "next_timer (step (Fire 0) after_exit) = 11"
  "seqs (step (Fire 0) after_exit) = [\<lparr>seq_notes = [C, E, G, E, C], seq_index = 5, timeoutId = Some 7, onComplete = SelectRandomNote [C, E, G], seq_started = 2000\<rparr>, \<lparr>seq_notes = [C, E, G, E, C], seq_index = 2, timeoutId = Some 10, onComplete = AskWhichNote, seq_started = 6100\<rparr>, \<lparr>seq_notes = [C, E, G, E, C], seq_index = 1, timeoutId = Some 9, onComplete = AskWhichNote, seq_started = 6200\<rparr>]"
  "trace (step (Fire 0) after_exit) = [NoteTriggered 0 0 C 0.6 2000, NoteTriggered 0 1 E 0.6 2700, NoteTriggered 0 2 G 0.6 3400, NoteTriggered 0 3 E 0.6 4100, NoteTriggered 0 4 C 0.6 4800, Completed 0 6100, NoteTriggered 1 0 C 0.6 6100, NoteTriggered 2 0 C 0.6 6200, ExitGameCalled 6200, NoteTriggered 1 1 E 0.6 6800]"
  "status (step (Fire 0) after_exit) = Guessing" "round (step (Fire 0) after_exit) = 1"
  "score (step (Fire 0) after_exit) = 0" "currentNote (step (Fire 0) after_exit) = Some E"
  "gameState (step (Fire 0) after_exit) = GS_welcome"
  "difficulty (step (Fire 0) after_exit) = ''easy''"
  "arduinoPort (step (Fire 0) after_exit) = False"
  "availableNotes (step (Fire 0) after_exit) = [C, E, G]"
  "showExitConfirm (step (Fire 0) after_exit) = True"
  "audioContext (step (Fire 0) after_exit) = Some 2000"
  "audioCleanupRef (step (Fire 0) after_exit) = Some 2"
  "mountTimer (step (Fire 0) after_exit) = 1"
  "pressTimeoutRef (step (Fire 0) after_exit) = (\<lambda>n. None)"
  by (simp_all add: after_exit_fields run_simps)

subsection \<open>Every player plays the triad or the scale\<close>

lemma seqs_run_callback:
  "seqs (run_callback f r s) = seqs s \<or>
   (\<exists>h q. h < length (seqs s) \<and> seqs (run_callback f r s) = (seqs s)[h := q] \<and>
          seq_notes q = seq_notes (seqs s ! h)) \<or>
   (\<exists>q. seqs (run_callback f r s) = seqs s @ [q] \<and>
        (seq_notes q = [C, E, G, E, C] \<or> seq_notes q = [C, D, E, F, G, A, B]))"
proof (cases f)
  case (PlayNextNote h)
  show ?thesis
  proof (cases "h < length (seqs s)")
    case True
    with PlayNextNote show ?thesis
      by (intro disjI2 disjI1, intro exI [of _ h])
         (auto simp add: run_callback_def playNextNote_effect)
  next
    case False
    with PlayNextNote show ?thesis by (simp add: run_callback_def playNextNote_effect)
  qed
next
  case (OnComplete h)
  then show ?thesis
    by (simp add: run_callback_def Let_def record_obs_def split: completion.splits)
next
  case (AfterFeedback r0 c sc)
  then show ?thesis by (simp add: run_callback_def)
next
  case InitializeGame
  then show ?thesis by (simp add: run_callback_def initializeGame_effect)
next
  case (ReleaseKey n)
  then show ?thesis by (simp add: run_callback_def)
qed

lemma seqs_step:
  "seqs (step e s) = seqs s \<or>
   (\<exists>h q. h < length (seqs s) \<and> seqs (step e s) = (seqs s)[h := q] \<and>
          seq_notes q = seq_notes (seqs s ! h)) \<or>
   (\<exists>q. seqs (step e s) = seqs s @ [q] \<and>
        (seq_notes q = [C, E, G, E, C] \<or> seq_notes q = [C, D, E, F, G, A, B]))"
proof (cases e)
  case (Fire r)
  show ?thesis
  proof (cases "earliest (timers s)")
    case None
    with Fire show ?thesis by (simp add: step_def)
  next
    case (Some t)
    from seqs_run_callback
      [of "cb t" r "s\<lparr>now := max (now s) (due t), timers := remove1 t (timers s)\<rparr>"]
      Fire Some show ?thesis by (simp add: step_def)
  qed
next
  case ReplayScale
  then show ?thesis
    by (cases "status s = Guessing") (simp_all add: step_def replayScale_effect)
next
  case (KeyPress n)
  then show ?thesis by (simp add: step_def handleKeyPress_def)
next
  case (ArduinoData pin)
  then show ?thesis
    by (simp add: step_def Let_def handleArduinoData_def Piano_handleArduinoData_def
          split: option.splits)
qed (simp_all add: step_def split: option.splits)

lemma notes_step:
  assumes "\<forall>q \<in> set (seqs s). seq_notes q = [C, E, G, E, C] \<or> seq_notes q = [C, D, E, F, G, A, B]"
  shows "\<forall>q \<in> set (seqs (step e s)).
           seq_notes q = [C, E, G, E, C] \<or> seq_notes q = [C, D, E, F, G, A, B]"
proof -
  from seqs_step [of e s] consider "seqs (step e s) = seqs s"
    | h q where "h < length (seqs s)" "seqs (step e s) = (seqs s)[h := q]"
        "seq_notes q = seq_notes (seqs s ! h)"
    | q where "seqs (step e s) = seqs s @ [q]"
        "seq_notes q = [C, E, G, E, C] \<or> seq_notes q = [C, D, E, F, G, A, B]"
    by blast
  then show ?thesis
  proof cases
    case 1
    with assms show ?thesis by simp
  next
    case 2
    from 2(1) assms have "seq_notes (seqs s ! h) = [C, E, G, E, C] \<or>
        seq_notes (seqs s ! h) = [C, D, E, F, G, A, B]" by simp
    with 2 assms show ?thesis
      by (auto dest!: set_update_subset_insert [THEN subsetD])
  next
    case 3
    with assms show ?thesis by auto
  qed
qed

lemma notes_run:
  "\<forall>q \<in> set (seqs s). seq_notes q = [C, E, G, E, C] \<or> seq_notes q = [C, D, E, F, G, A, B] \<Longrightarrow>
   \<forall>q \<in> set (seqs (run es s)).
      seq_notes q = [C, E, G, E, C] \<or> seq_notes q = [C, D, E, F, G, A, B]"
proof (induction es arbitrary: s)
  case Nil
  then show ?case by simp
next
  case (Cons e es)
  from Cons.IH [OF notes_step [OF Cons.prems]] show ?case by simp
qed

lemma reachable_notes:
  assumes "reachable s" "h < length (seqs s)"
  shows "seq_notes (seqs s ! h) = [C, E, G, E, C] \<or>
         seq_notes (seqs s ! h) = [C, D, E, F, G, A, B]"
proof -
  from assms(1) obtain d port es where s: "s = run es (init d port)"
    by (auto simp add: reachable_def)
  have "\<forall>q \<in> set (seqs (init d port)).
      seq_notes q = [C, E, G, E, C] \<or> seq_notes q = [C, D, E, F, G, A, B]" by simp
  from notes_run [OF this, of es] s assms(2) show ?thesis by simp
qed

subsection \<open>The named states are reachable\<close>

lemma reachable_awaiting_guess: "reachable awaiting_guess"
  unfolding awaiting_guess_def by (rule reachable_run) (rule reachable_init)

lemma reachable_two_replays: "reachable two_replays"
  unfolding two_replays_def by (rule reachable_run) (rule reachable_awaiting_guess)

lemma reachable_after_exit: "reachable after_exit"
  unfolding after_exit_def by (rule reachable_run) (rule reachable_two_replays)

subsection \<open>The list of active audio sources\<close>

lemma activeAudioSources_confirmExit: "activeAudioSources (confirmExit s) = []"
  by (simp add: confirmExit_def Let_def App_exitGame_def unmount_def record_obs_def
        callAudioCleanup_def cleanup_def clearTimeout_def pianoCleanup_def stopAllAudio_def
        split: option.splits)

lemma activeAudioSources_playNote:
  "audioContext s \<noteq> None \<Longrightarrow>
     length (activeAudioSources (playNote n d s)) = length (activeAudioSources s) + 5"
  by (auto simp add: playNote_def Let_def createPianoTone_def harmonics_def)

lemma activeAudioSources_playNextNote:
  "h < length (seqs s) \<Longrightarrow> seq_index (seqs s ! h) < length (seq_notes (seqs s ! h)) \<Longrightarrow>
     activeAudioSources (playNextNote h s) =
       activeAudioSources (playNote (seq_notes (seqs s ! h) ! seq_index (seqs s ! h)) 0.6 s)"
  by (simp add: playNextNote_def Let_def setTimeout_def record_obs_def)

section \<open>The claims\<close>

subsection \<open>C1: the reference passage and the usable notes\<close>

lemma referencePassage_eq:
  "referencePassage s =
     (if difficulty s = ''easy'' then [C, E, G, E, C] else [C, D, E, F, G, A, B])"
  by (simp add: referencePassage_def initializeGame_effect)

text \<open>
  C1, as the code has it. A round is primed by \<^verbatim>\<open>initializeGame\<close>, which stores the
  usable notes of the difficulty and plays the triad for \<open>easy\<close> and the full scale
  for every other difficulty. The usable notes are always among the notes of the
  passage; the passage is within the usable notes for \<open>easy\<close> and \<open>hard\<close>. For
  \<open>medium\<close> the passage is the full scale and the usable notes are C, E, F, G.
\<close>

theorem passage_and_usable_notes:
  "set (availableNotes (initializeGame s)) \<subseteq> set (referencePassage s) \<and>
   availableNotes (initializeGame s) = getAvailableNotes (difficulty s) \<and>
   (difficulty s = ''easy'' \<or> difficulty s = ''hard'' \<longrightarrow>
      set (referencePassage s) \<subseteq> set (availableNotes (initializeGame s)))"
  by (auto simp add: referencePassage_eq initializeGame_effect getAvailableNotes_def)

theorem passage_and_usable_notes_hard:
  "(difficulty (init ''hard'' False) = ''easy'' \<or> difficulty (init ''hard'' False) = ''hard'') \<and>
   set (availableNotes (initializeGame (init ''hard'' False)))
     \<subseteq> set (referencePassage (init ''hard'' False)) \<and>
   set (referencePassage (init ''hard'' False))
     \<subseteq> set (availableNotes (initializeGame (init ''hard'' False)))"
  using passage_and_usable_notes [of "init ''hard'' False"] by auto

text \<open>
  C1 as stated fails for \<open>medium\<close>: the passage played is the full scale, and D, A
  and B are not usable.
\<close>

theorem passage_not_usable_medium:
  "difficulty (init ''medium'' False) = ''medium'' \<and>
   availableNotes (initializeGame (init ''medium'' False)) = [C, E, F, G] \<and>
   referencePassage (init ''medium'' False) = [C, D, E, F, G, A, B] \<and>
   \<not> set (referencePassage (init ''medium'' False))
        \<subseteq> set (availableNotes (initializeGame (init ''medium'' False)))"
  by (simp add: referencePassage_eq initializeGame_effect getAvailableNotes_def)

subsection \<open>C9: the synthesized tone\<close>

text \<open>
  C9. Once the audio context exists, \<^verbatim>\<open>playNote\<close> connects one tone to the
  destination: five triangle oscillators at 1, 2, 3, 4 and 5 times the frequency of
  the note with the gains 0.8, 0.3, 0.15, 0.08 and 0.04, all started at the trigger
  time \<open>t0\<close> and stopped at \<open>t0 + d\<close>, under a master gain that is set to 0 at \<open>t0\<close>,
  ramps linearly to 0.4 at \<open>t0 + 0.01\<close>, exponentially to 0.2 at \<open>t0 + 0.1\<close>,
  exponentially to 0.05 at \<open>t0 + 0.7 d\<close> and linearly to 0 at \<open>t0 + d\<close>. For a duration
  above 1/7 s (the program asks for 0.3, 0.6 and 1) the five times increase.
\<close>

theorem piano_tone:
  assumes "audioContext s = Some c"
  shows "\<exists>tn. destination (playNote note d s) = destination s @ [tn] \<and>
      length (tone_oscillators tn) = 5 \<and>
      map (\<lambda>osc. (osc_frequency osc, osc_gain osc)) (tone_oscillators tn) =
        [(noteFrequencies note, 0.8), (noteFrequencies note * 2, 0.3),
         (noteFrequencies note * 3, 0.15), (noteFrequencies note * 4, 0.08),
         (noteFrequencies note * 5, 0.04)] \<and>
      (\<forall>osc \<in> set (tone_oscillators tn).
          osc_type osc = Triangle \<and> osc_start osc = Some (currentTime s) \<and>
          osc_stop osc = Some (currentTime s + d)) \<and>
      tone_envelope tn =
        [SetValueAtTime 0 (currentTime s),
         LinearRampToValueAtTime 0.4 (currentTime s + 0.01),
         ExponentialRampToValueAtTime 0.2 (currentTime s + 0.1),
         ExponentialRampToValueAtTime 0.05 (currentTime s + d * 0.7),
         LinearRampToValueAtTime 0 (currentTime s + d)] \<and>
      (1 / 7 < d \<longrightarrow> sorted_wrt (<) (map automation_time (tone_envelope tn)))"
  using assms
  by (simp add: playNote_def Let_def createPianoTone_def harmonics_def enumerate_eq_zip upt_rec)

theorem piano_tone_A_one_second:
  "audioContext (initializeGame (init ''easy'' False)) = Some 0 \<and>
   (\<exists>tn. destination (playNote A 1 (initializeGame (init ''easy'' False))) =
           destination (initializeGame (init ''easy'' False)) @ [tn] \<and>
         length (tone_oscillators tn) = 5 \<and>
         map (\<lambda>osc. (osc_frequency osc, osc_gain osc)) (tone_oscillators tn) =
           [(440, 0.8), (880, 0.3), (1320, 0.15), (1760, 0.08), (2200, 0.04)] \<and>
         tone_envelope tn =
           [SetValueAtTime 0 0, LinearRampToValueAtTime 0.4 0.01,
            ExponentialRampToValueAtTime 0.2 0.1, ExponentialRampToValueAtTime 0.05 0.7,
            LinearRampToValueAtTime 0 1] \<and>
         sorted_wrt (<) (map automation_time (tone_envelope tn)))"
proof -
  have a: "audioContext (initializeGame (init ''easy'' False)) = Some 0"
    by (simp add: initializeGame_effect)
  have t: "currentTime (initializeGame (init ''easy'' False)) = 0"
    by (simp add: currentTime_def a)
  from piano_tone [OF a, of A 1] show ?thesis
    by (auto simp add: a t noteFrequencies_def)
qed

subsection \<open>C10: key presses the piano ignores\<close>

text \<open>
  C10. A click on a piano key while the piano is disabled (the status is not
  \<open>Guessing\<close>), or on a key whose note is not usable in the round, changes nothing:
  the state after the click is the state before it, so no tone is played, no guess
  is handled and no key is shown as pressed.
\<close>

theorem key_press_ignored:
  "disabled s \<or> note \<notin> set (availableNotes s) \<Longrightarrow>
     handleKeyPress note s = s \<and> step (KeyPress note) s = s"
  by (auto simp add: handleKeyPress_def step_def)

theorem key_press_ignored_before_first_round:
  "(disabled (init ''easy'' False) \<or> D \<notin> set (availableNotes (init ''easy'' False))) \<and>
   handleKeyPress D (init ''easy'' False) = init ''easy'' False \<and>
   step (KeyPress D) (init ''easy'' False) = init ''easy'' False"
  using key_press_ignored [of "init ''easy'' False" D]
  by (simp add: disabled_def)

subsection \<open>C2: the timing of a passage\<close>

text \<open>
  C2 as stated fails. In the first round of an easy game the triad starts at 2000 ms,
  its last note is triggered at 4800 ms and the completion callback runs at 6100 ms:
  1300 ms after the last note, not 600 ms.
\<close>

theorem completion_not_600ms_after_last_note:
  "trace (run [Fire 0, Fire 0, Fire 0, Fire 0, Fire 0, Fire 0, Fire 0.5] (init ''easy'' False)) =
     [NoteTriggered 0 0 C 0.6 2000, NoteTriggered 0 1 E 0.6 2700, NoteTriggered 0 2 G 0.6 3400,
      NoteTriggered 0 3 E 0.6 4100, NoteTriggered 0 4 C 0.6 4800, Completed 0 6100] \<and>
   (6100 :: nat) \<noteq> 4800 + 600"
  using awaiting_guess_fields(5) by (simp add: awaiting_guess_def)

text \<open>
  C2, as the code has it. When the completion callback of a player has run at time
  \<open>t\<close>, the player plays the scale or the triad; each of its notes was triggered,
  with a duration of 0.6 s, 700 ms after the one before, the first when the player
  was created; and \<open>t\<close> is 1300 ms after the last note was triggered: the step that
  finds no note left runs 700 ms after the last note and sets the 600 ms timer of
  the callback. Every note a player has triggered has the duration 0.6 s and its
  place in this schedule.
\<close>

theorem player_schedule:
  assumes "reachable s" "Completed h t \<in> set (trace s)"
  shows "h < length (seqs s) \<and>
    (seq_notes (seqs s ! h) = [C, E, G, E, C] \<or>
     seq_notes (seqs s ! h) = [C, D, E, F, G, A, B]) \<and>
    (\<forall>i < length (seq_notes (seqs s ! h)).
        NoteTriggered h i (seq_notes (seqs s ! h) ! i) 0.6 (seq_started (seqs s ! h) + 700 * i)
          \<in> set (trace s)) \<and>
    (\<forall>i note d u. NoteTriggered h i note d u \<in> set (trace s) \<longrightarrow>
        d = 0.6 \<and> u = seq_started (seqs s ! h) + 700 * i) \<and>
    t = seq_started (seqs s ! h) + 700 * (length (seq_notes (seqs s ! h)) - 1) + 1300"
proof -
  from assms(1) have ok: "player_ok s" by (rule reachable_player_ok)
  from ok assms(2) have "obs_on_schedule (seqs s) (Completed h t)"
    unfolding player_ok_def by blast
  then have h: "h < length (seqs s)"
    and full: "seq_index (seqs s ! h) = length (seq_notes (seqs s ! h))"
    and t: "t = complete_time (seqs s ! h)" by simp_all
  note n = reachable_notes [OF assms(1) h]
  from ok h full have all: "\<forall>i < length (seq_notes (seqs s ! h)).
      NoteTriggered h i (seq_notes (seqs s ! h) ! i) 0.6 (seq_started (seqs s ! h) + 700 * i)
        \<in> set (trace s)"
    unfolding player_ok_def note_time_def by auto
  have each: "d = 0.6 \<and> u = seq_started (seqs s ! h) + 700 * i"
    if "NoteTriggered h i n0 d u \<in> set (trace s)" for i n0 d u
  proof -
    from ok that have "obs_on_schedule (seqs s) (NoteTriggered h i n0 d u)"
      unfolding player_ok_def by blast
    then show ?thesis by (simp add: note_time_def)
  qed
  from n t have "t = seq_started (seqs s ! h) + 700 * (length (seq_notes (seqs s ! h)) - 1) + 1300"
    by (auto simp add: complete_time_def)
  with h n all each show ?thesis by blast
qed

theorem player_schedule_first_triad:
  "reachable awaiting_guess \<and> Completed 0 6100 \<in> set (trace awaiting_guess) \<and>
   seq_notes (seqs awaiting_guess ! 0) = [C, E, G, E, C] \<and>
   seq_started (seqs awaiting_guess ! 0) = 2000 \<and>
   NoteTriggered 0 4 C 0.6 (2000 + 700 * 4) \<in> set (trace awaiting_guess) \<and>
   (6100 :: nat) = 2000 + 700 * (5 - 1) + 1300"
proof -
  have c: "Completed 0 6100 \<in> set (trace awaiting_guess)"
    by (simp add: awaiting_guess_fields)
  from player_schedule [OF reachable_awaiting_guess c] show ?thesis
    by (simp add: awaiting_guess_fields reachable_awaiting_guess)
qed

subsection \<open>C3: cancelling a player\<close>

text \<open>
  C3. Take a player \<open>h\<close> of a reachable state whose note number \<open>N\<close> (counted from 0)
  has not been triggered yet, and call the cancellation function it returned.
  Whatever happens afterwards, the player has no pending timer, every note it has
  triggered has a number below \<open>N\<close>, and its completion callback has not run.
\<close>

theorem cancelled_player_is_silent:
  assumes "reachable s" "h < length (seqs s)"
    and "seq_index (seqs s ! h) \<le> N" "N < length (seq_notes (seqs s ! h))"
  shows "pending h (run es (cleanup h s)) = [] \<and>
    (\<forall>e \<in> set (trace (run es (cleanup h s))).
        (\<forall>i note d t. e = NoteTriggered h i note d t \<longrightarrow> i < N) \<and>
        (\<forall>t. e \<noteq> Completed h t))"
proof -
  from assms(1) have t: "timers_ok s" and ok: "player_ok s"
    by (rule reachable_timers_ok, rule reachable_player_ok)
  have h': "h < length (seqs (cleanup h s))" using assms(2) by simp
  note q = quiet_run [OF h' cleanup_quiet [OF t assms(2)], of es]
  have "(\<forall>i note d t. e = NoteTriggered h i note d t \<longrightarrow> i < N) \<and> (\<forall>t. e \<noteq> Completed h t)"
    if e: "e \<in> set (trace (run es (cleanup h s)))" for e
  proof (cases "about h e")
    case True
    with e have "e \<in> set (filter (about h) (trace (run es (cleanup h s))))" by simp
    with q have "e \<in> set (trace s)" by simp
    with ok have "obs_on_schedule (seqs s) e" unfolding player_ok_def by blast
    with assms(3,4) show ?thesis by (cases e) auto
  next
    case False
    then show ?thesis by (cases e) auto
  qed
  with q show ?thesis by blast
qed

theorem cancelled_first_replay_is_silent:
  "reachable two_replays \<and> 1 < length (seqs two_replays) \<and>
   seq_index (seqs two_replays ! 1) \<le> 1 \<and> 1 < length (seq_notes (seqs two_replays ! 1)) \<and>
   pending 1 (run [ExitClick, ConfirmExit, Fire 0] (cleanup 1 two_replays)) = [] \<and>
   NoteTriggered 1 1 E 0.6 6800
     \<notin> set (trace (run [ExitClick, ConfirmExit, Fire 0] (cleanup 1 two_replays)))"
proof -
  have "1 < length (seqs two_replays)" "seq_index (seqs two_replays ! 1) \<le> 1"
    "1 < length (seq_notes (seqs two_replays ! 1))"
    by (simp_all add: two_replays_fields)
  from cancelled_player_is_silent [OF reachable_two_replays this] this reachable_two_replays
  show ?thesis by blast
qed

end
